theory Spec2Isabelle
  imports Main
begin

section \<open>Strings\<close>

text \<open>
  Messages are strings of 8-bit characters. Only the ASCII letters have a case; every
  pattern and keyword of the program is ASCII, so the case of other characters is never
  observed.
\<close>

definition isUpper :: "char \<Rightarrow> bool" where
  "isUpper c = (65 \<le> (of_char c :: nat) \<and> (of_char c :: nat) \<le> 90)"

definition isLower :: "char \<Rightarrow> bool" where
  "isLower c = (97 \<le> (of_char c :: nat) \<and> (of_char c :: nat) \<le> 122)"

definition isDigit :: "char \<Rightarrow> bool" where
  "isDigit c = (48 \<le> (of_char c :: nat) \<and> (of_char c :: nat) \<le> 57)"

definition lowerChar :: "char \<Rightarrow> char" where
  "lowerChar c = (if isUpper c then char_of ((of_char c :: nat) + 32) else c)"

definition upperChar :: "char \<Rightarrow> char" where
  "upperChar c = (if isLower c then char_of ((of_char c :: nat) - 32) else c)"

text \<open>\<^verbatim>\<open>String.prototype.toLowerCase\<close>\<close>

definition toLowerCase :: "string \<Rightarrow> string" where
  "toLowerCase s = map lowerChar s"

text \<open>\<^verbatim>\<open>\w\<close>: letters, digits and the underscore.\<close>

definition isWordChar :: "char \<Rightarrow> bool" where
  "isWordChar c = (isUpper c \<or> isLower c \<or> isDigit c \<or> c = CHR ''_'')"

text \<open>\<^verbatim>\<open>\s\<close> and the characters removed by \<^verbatim>\<open>trim\<close>: tab, line feed, vertical tab, form feed,
  carriage return, space and the no-break space.\<close>

definition isSpace :: "char \<Rightarrow> bool" where
  "isSpace c = ((9 \<le> (of_char c :: nat) \<and> (of_char c :: nat) \<le> 13)
     \<or> (of_char c :: nat) = 32 \<or> (of_char c :: nat) = 160)"

definition trim :: "string \<Rightarrow> string" where
  "trim s = rev (dropWhile isSpace (rev (dropWhile isSpace s)))"

text \<open>\<^verbatim>\<open>s.startsWith(t)\<close> and \<^verbatim>\<open>s.includes(t)\<close>\<close>

fun startsWith :: "string \<Rightarrow> string \<Rightarrow> bool" where
  "startsWith s [] = True"
| "startsWith [] (c # t) = False"
| "startsWith (x # s) (c # t) = (x = c \<and> startsWith s t)"

fun includesStr :: "string \<Rightarrow> string \<Rightarrow> bool" where
  "includesStr [] t = startsWith [] t"
| "includesStr (x # s) t = (startsWith (x # s) t \<or> includesStr s t)"

section \<open>Regular expressions\<close>

text \<open>
  The patterns of the program are written in the fragment below and run by a backtracking
  matcher with the priorities of the language: alternatives left to right, quantifiers
  greedy, the leftmost start position first. A character set is one of the classes of the
  source; quantifiers other than \<^verbatim>\<open>?\<close> occur in the program only on a single character
  set, which is what \<open>Rep\<close> covers.
\<close>

datatype cset =
    CDigit
  | CWord
  | CSpace
  | CDot
  | CChars string
  | CRange char char
  | CUnion cset cset

fun inCset :: "cset \<Rightarrow> char \<Rightarrow> bool" where
  "inCset CDigit c = isDigit c"
| "inCset CWord c = isWordChar c"
| "inCset CSpace c = isSpace c"
| "inCset CDot c = (c \<noteq> CHR 0x0A \<and> c \<noteq> CHR 0x0D)"
| "inCset (CChars cs) c = (c \<in> set cs)"
| "inCset (CRange a b) c = ((of_char a :: nat) \<le> of_char c \<and> (of_char c :: nat) \<le> of_char b)"
| "inCset (CUnion A B) c = (inCset A c \<or> inCset B c)"

datatype regex =
    Lit string
  | Cls cset
  | NCls cset
  | Rep nat "nat option" cset
  | NRep nat "nat option" cset
  | Seq regex regex
  | Alt regex regex
  | Opt regex
  | Grp nat regex
  | Bol
  | Eol
  | WordB

text \<open>
  A matcher state: the input already consumed (reversed), the input still ahead, and the
  capture groups closed so far (latest first).
\<close>

type_synonym mstate = "string \<times> string \<times> (nat \<times> string) list"

text \<open>Character comparison, under the flag \<^verbatim>\<open>i\<close> after canonicalisation to upper case.\<close>

definition charEq :: "bool \<Rightarrow> char \<Rightarrow> char \<Rightarrow> bool" where
  "charEq ic a b = (if ic then upperChar a = upperChar b else a = b)"

definition clsMatch :: "bool \<Rightarrow> cset \<Rightarrow> char \<Rightarrow> bool" where
  "clsMatch ic A c =
     (if ic then inCset A c \<or> inCset A (lowerChar c) \<or> inCset A (upperChar c)
      else inCset A c)"

fun matchLit :: "bool \<Rightarrow> string \<Rightarrow> mstate \<Rightarrow> mstate list" where
  "matchLit ic [] st = [st]"
| "matchLit ic (c # w) (pre, [], caps) = []"
| "matchLit ic (c # w) (pre, x # rest, caps) =
     (if charEq ic c x then matchLit ic w (x # pre, rest, caps) else [])"

definition matchChar :: "(char \<Rightarrow> bool) \<Rightarrow> mstate \<Rightarrow> mstate list" where
  "matchChar p st =
     (case st of (pre, rest, caps) \<Rightarrow>
        (case rest of [] \<Rightarrow> [] | x # rest' \<Rightarrow> if p x then [(x # pre, rest', caps)] else []))"

text \<open>
  Greedy repetition of one character set, at least \<open>lo\<close> and at most \<open>hi\<close> times: the
  longest run comes first, then the shorter ones.
\<close>

fun decr :: "nat option \<Rightarrow> nat option" where
  "decr None = None"
| "decr (Some n) = Some (n - 1)"

fun matchRep :: "(char \<Rightarrow> bool) \<Rightarrow> nat \<Rightarrow> nat option \<Rightarrow> string \<Rightarrow> string \<Rightarrow> (string \<times> string) list" where
  "matchRep p lo hi pre [] = (if lo = 0 then [(pre, [])] else [])"
| "matchRep p lo hi pre (x # rest) =
     (if hi \<noteq> Some 0 \<and> p x then matchRep p (lo - 1) (decr hi) (x # pre) rest else [])
     @ (if lo = 0 then [(pre, x # rest)] else [])"

definition wordBoundary :: "string \<Rightarrow> string \<Rightarrow> bool" where
  "wordBoundary pre rest =
     ((case pre of [] \<Rightarrow> False | a # _ \<Rightarrow> isWordChar a)
      \<noteq> (case rest of [] \<Rightarrow> False | b # _ \<Rightarrow> isWordChar b))"

definition closeGroup :: "nat \<Rightarrow> string \<Rightarrow> mstate \<Rightarrow> mstate" where
  "closeGroup n rest0 st =
     (case st of (pre, rest, caps) \<Rightarrow>
        (pre, rest, (n, take (length rest0 - length rest) rest0) # caps))"

primrec ms :: "bool \<Rightarrow> regex \<Rightarrow> mstate \<Rightarrow> mstate list" where
  "ms ic (Lit w) st = matchLit ic w st"
| "ms ic (Cls A) st = matchChar (clsMatch ic A) st"
| "ms ic (NCls A) st = matchChar (\<lambda>c. \<not> clsMatch ic A c) st"
| "ms ic (Rep lo hi A) st =
     (case st of (pre, rest, caps) \<Rightarrow>
        map (\<lambda>(p, r). (p, r, caps)) (matchRep (clsMatch ic A) lo hi pre rest))"
| "ms ic (NRep lo hi A) st =
     (case st of (pre, rest, caps) \<Rightarrow>
        map (\<lambda>(p, r). (p, r, caps)) (matchRep (\<lambda>c. \<not> clsMatch ic A c) lo hi pre rest))"
| "ms ic (Seq a b) st = concat (map (ms ic b) (ms ic a st))"
| "ms ic (Alt a b) st = ms ic a st @ ms ic b st"
| "ms ic (Opt a) st = ms ic a st @ [st]"
| "ms ic (Grp n a) st = map (closeGroup n (fst (snd st))) (ms ic a st)"
| "ms ic Bol st = (if fst st = [] then [st] else [])"
| "ms ic Eol st = (if fst (snd st) = [] then [st] else [])"
| "ms ic WordB st = (if wordBoundary (fst st) (fst (snd st)) then [st] else [])"

text \<open>
  The result of a successful match: the matched text (index 0 of the match array), the
  capture groups, and the input on both sides of the end of the match.
\<close>

record rmatch =
  matched :: string
  groups :: "(nat \<times> string) list"
  before :: string
  after :: string

definition capture :: "rmatch \<Rightarrow> nat \<Rightarrow> string option" where
  "capture m n = map_of (groups m) n"

fun searchFrom :: "bool \<Rightarrow> regex \<Rightarrow> string \<Rightarrow> string \<Rightarrow> rmatch option" where
  "searchFrom ic r pre [] =
     (case ms ic r (pre, [], []) of
        [] \<Rightarrow> None
      | (pre', rest', caps) # _ \<Rightarrow>
          Some \<lparr>matched = [], groups = caps, before = pre', after = rest'\<rparr>)"
| "searchFrom ic r pre (x # rest) =
     (case ms ic r (pre, x # rest, []) of
        [] \<Rightarrow> searchFrom ic r (x # pre) rest
      | (pre', rest', caps) # _ \<Rightarrow>
          Some \<lparr>matched = take (length (x # rest) - length rest') (x # rest),
                groups = caps, before = pre', after = rest'\<rparr>)"

text \<open>\<^verbatim>\<open>s.match(r)\<close> for a pattern without the flag \<^verbatim>\<open>g\<close>, and \<^verbatim>\<open>r.test(s)\<close>\<close>

definition strMatch :: "bool \<Rightarrow> regex \<Rightarrow> string \<Rightarrow> rmatch option" where
  "strMatch ic r s = searchFrom ic r [] s"

definition rtest :: "bool \<Rightarrow> regex \<Rightarrow> string \<Rightarrow> bool" where
  "rtest ic r s = (strMatch ic r s \<noteq> None)"

section \<open>Numbers\<close>

text \<open>
  A number of the program is an integer or \<^verbatim>\<open>NaN\<close> (\<open>None\<close>). \<^verbatim>\<open>parseInt\<close> without a radix
  skips leading white space, reads a sign, reads a \<^verbatim>\<open>0x\<close> prefix as base sixteen, and
  takes the longest run of digits; no digit gives \<^verbatim>\<open>NaN\<close>.
\<close>

definition digitVal :: "char \<Rightarrow> int" where
  "digitVal c =
     (if isDigit c then int (of_char c) - 48
      else if isLower c then int (of_char c) - 87
      else int (of_char c) - 55)"

definition isHexDigit :: "char \<Rightarrow> bool" where
  "isHexDigit c = (isDigit c
     \<or> (97 \<le> (of_char c :: nat) \<and> (of_char c :: nat) \<le> 102)
     \<or> (65 \<le> (of_char c :: nat) \<and> (of_char c :: nat) \<le> 70))"

definition digitsValue :: "int \<Rightarrow> string \<Rightarrow> int" where
  "digitsValue radix ds = foldl (\<lambda>acc c. acc * radix + digitVal c) 0 ds"

definition parseDigits :: "string \<Rightarrow> int option" where
  "parseDigits s =
     (if startsWith s ''0x'' \<or> startsWith s ''0X''
      then (case takeWhile isHexDigit (drop 2 s) of
              [] \<Rightarrow> None
            | ds \<Rightarrow> Some (digitsValue 16 ds))
      else (case takeWhile isDigit s of
              [] \<Rightarrow> None
            | ds \<Rightarrow> Some (digitsValue 10 ds)))"

definition parseInt :: "string \<Rightarrow> int option" where
  "parseInt str =
     (case dropWhile isSpace str of
        [] \<Rightarrow> None
      | c # s \<Rightarrow>
          if c = CHR ''-'' then map_option uminus (parseDigits s)
          else if c = CHR ''+'' then parseDigits s
          else parseDigits (c # s))"

text \<open>\<^verbatim>\<open>Number.prototype.toString\<close> on an integer, and \<^verbatim>\<open>padStart(2, '0')\<close>\<close>

fun natToString :: "nat \<Rightarrow> string" where
  "natToString n =
     (if n < 10 then [char_of (48 + n)]
      else natToString (n div 10) @ [char_of (48 + n mod 10)])"

definition numToString :: "int option \<Rightarrow> string" where
  "numToString n =
     (case n of
        None \<Rightarrow> ''NaN''
      | Some i \<Rightarrow> if i < 0 then CHR ''-'' # natToString (nat (- i)) else natToString (nat i))"

definition padStart2 :: "string \<Rightarrow> string" where
  "padStart2 s = replicate (2 - length s) CHR ''0'' @ s"

section \<open>Time extraction\<close>

definition TIME_EXPRESSIONS :: "(string \<times> string) list" where
  "TIME_EXPRESSIONS =
     [(''noon'', ''12:00''),
      (''midnight'', ''00:00''),
      (''midday'', ''12:00''),
      (''morning'', ''09:00''),
      (''afternoon'', ''14:00''),
      (''evening'', ''18:00''),
      (''night'', ''20:00''),
      (''dawn'', ''06:00''),
      (''dusk'', ''18:00''),
      (''lunch'', ''12:00''),
      (''breakfast'', ''08:00''),
      (''dinner'', ''19:00''),
      (''brunch'', ''10:30''),
      (''eod'', ''17:00''),
      (''cob'', ''17:00''),
      (''early morning'', ''07:00''),
      (''late night'', ''23:00'')]"

text \<open>The loop over the entries of the table: the first expression contained in the message.\<close>

fun firstExpression :: "(string \<times> 'a) list \<Rightarrow> string \<Rightarrow> 'a option" where
  "firstExpression [] lowerMessage = None"
| "firstExpression ((expr, v) # es) lowerMessage =
     (if includesStr lowerMessage expr then Some v else firstExpression es lowerMessage)"

text \<open>The five time patterns, each with its flag \<^verbatim>\<open>i\<close>.\<close>

definition timePatterns :: "(bool \<times> regex) list" where
  "timePatterns =
     [(True, Seq (Grp 1 (Rep 1 (Some 2) CDigit))
              (Seq (Opt (Seq (Lit '':'') (Grp 2 (Rep 2 (Some 2) CDigit))))
              (Seq (Rep 0 None CSpace)
                   (Opt (Grp 3 (Alt (Lit ''am'') (Alt (Lit ''pm'')
                                (Alt (Lit ''a.m.'') (Lit ''p.m.'')))))))))
     ,(False, Seq (Grp 1 (Rep 1 (Some 2) CDigit))
              (Seq (Cls (CChars ''.:'')) (Grp 2 (Rep 2 (Some 2) CDigit))))
     ,(True, Seq (Grp 1 (Rep 1 (Some 2) CDigit))
              (Seq (Rep 0 None CSpace) (Seq (Lit ''o'') (Seq (Cls (CChars [CHR 0x27, CHR 0x27]))
              (Seq (Rep 0 None CSpace) (Lit ''clock''))))))
     ,(True, Seq (Grp 1 (Rep 1 (Some 2) CDigit)) (Seq (Rep 0 None CSpace) (Lit ''hrs'')))
     ,(True, Seq (Lit ''at'') (Seq (Rep 1 None CSpace)
              (Seq (Grp 1 (Rep 1 (Some 2) CDigit))
              (Seq (Opt (Seq (Lit '':'') (Grp 2 (Rep 2 (Some 2) CDigit))))
              (Seq (Rep 0 None CSpace)
                   (Opt (Grp 3 (Alt (Lit ''am'') (Lit ''pm'')))))))))]"

text \<open>The body of the pattern loop for a pattern that matched: the three adjustments of
  the hour by the meridian, then the text of the time.\<close>

definition numLess :: "int option \<Rightarrow> int \<Rightarrow> bool" where
  "numLess a b = (case a of None \<Rightarrow> False | Some i \<Rightarrow> i < b)"

definition normalizeHours :: "string \<Rightarrow> string option \<Rightarrow> int option \<Rightarrow> int option" where
  "normalizeHours lowerMessage meridian hours =
     (let hours1 = (if (case meridian of None \<Rightarrow> False | Some d \<Rightarrow> includesStr d ''p'')
                       \<and> numLess hours 12
                    then map_option (\<lambda>h. h + 12) hours else hours);
          hours2 = (if (case meridian of None \<Rightarrow> False | Some d \<Rightarrow> includesStr d ''a'')
                       \<and> hours1 = Some 12
                    then Some 0 else hours1);
          hours3 = (if meridian = None \<and> numLess hours2 12
                       \<and> (includesStr lowerMessage ''evening'' \<or> includesStr lowerMessage ''night'')
                    then map_option (\<lambda>h. h + 12) hours2 else hours2)
      in hours3)"

definition timeOfMatch :: "string \<Rightarrow> rmatch \<Rightarrow> string" where
  "timeOfMatch lowerMessage m =
     (let hours = (case capture m 1 of None \<Rightarrow> None | Some g \<Rightarrow> parseInt g);
          minutes = (case capture m 2 of
                       None \<Rightarrow> Some 0
                     | Some g \<Rightarrow> if g = [] then Some 0 else parseInt g);
          meridian = map_option toLowerCase (capture m 3)
      in padStart2 (numToString (normalizeHours lowerMessage meridian hours))
         @ '':'' @ padStart2 (numToString minutes))"

fun firstPattern :: "(bool \<times> regex) list \<Rightarrow> string \<Rightarrow> rmatch option" where
  "firstPattern [] message = None"
| "firstPattern ((ic, r) # ps) message =
     (case strMatch ic r message of
        Some m \<Rightarrow> Some m
      | None \<Rightarrow> firstPattern ps message)"

definition extractTime :: "string \<Rightarrow> string option" where
  "extractTime message =
     (let lowerMessage = toLowerCase message in
      case firstExpression TIME_EXPRESSIONS lowerMessage of
        Some t \<Rightarrow> Some t
      | None \<Rightarrow> map_option (timeOfMatch lowerMessage) (firstPattern timePatterns message))"

section \<open>Dates\<close>

text \<open>
  A \<^verbatim>\<open>Date\<close> is a point of local time: the number of its calendar day, counted from
  1 January 1970, and the milliseconds since that day's midnight. Dates are compared by
  \<open>valueOf\<close>. The calendar arithmetic is that of the language standard: \<open>DayFromYear\<close>,
  the table of month starts, and \<open>MakeDay\<close>, which carries months beyond December into
  the years and days beyond a month's end into the months.
\<close>

record Date =
  dayNumber :: int
  timeInDay :: int

definition msPerDay :: int where
  "msPerDay = 86400000"

definition valueOf :: "Date \<Rightarrow> int" where
  "valueOf d = dayNumber d * msPerDay + timeInDay d"

definition DayFromYear :: "int \<Rightarrow> int" where
  "DayFromYear y = 365 * (y - 1970) + (y - 1969) div 4 - (y - 1901) div 100 + (y - 1601) div 400"

definition InLeapYear :: "int \<Rightarrow> bool" where
  "InLeapYear y = (y mod 4 = 0 \<and> (y mod 100 \<noteq> 0 \<or> y mod 400 = 0))"

definition monthStart :: "int \<Rightarrow> int \<Rightarrow> int" where
  "monthStart y m =
     [0, 31, 59, 90, 120, 151, 181, 212, 243, 273, 304, 334] ! nat m
     + (if InLeapYear y \<and> 2 \<le> m then 1 else 0)"

definition MakeDay :: "int \<Rightarrow> int \<Rightarrow> int \<Rightarrow> int" where
  "MakeDay year month dt =
     (let ym = year + month div 12; mn = month mod 12
      in DayFromYear ym + monthStart ym mn + dt - 1)"

text \<open>\<^verbatim>\<open>new Date(year, month, day)\<close>: midnight of that day; a year from 0 to 99 means 1900 + year.\<close>

definition newDate :: "int \<Rightarrow> int \<Rightarrow> int \<Rightarrow> Date" where
  "newDate year month dt =
     \<lparr>dayNumber = MakeDay (if 0 \<le> year \<and> year \<le> 99 then 1900 + year else year) month dt,
      timeInDay = 0\<rparr>"

text \<open>\<^verbatim>\<open>getDay()\<close>: 0 is Sunday; 1 January 1970 was a Thursday.\<close>

definition getDay :: "Date \<Rightarrow> int" where
  "getDay d = (dayNumber d + 4) mod 7"

text \<open>\<^verbatim>\<open>d.setDate(d.getDate() + k)\<close> moves a date by \<open>k\<close> calendar days and keeps its time of day.\<close>

definition addDays :: "int \<Rightarrow> Date \<Rightarrow> Date" where
  "addDays k d = d\<lparr>dayNumber := dayNumber d + k\<rparr>"

text \<open>\<^verbatim>\<open>d.setHours(0, 0, 0, 0)\<close>\<close>

definition atMidnight :: "Date \<Rightarrow> Date" where
  "atMidnight d = d\<lparr>timeInDay := 0\<rparr>"

text \<open>
  The clock: what \<^verbatim>\<open>new Date()\<close> reads, given by its local calendar fields
  (\<^verbatim>\<open>getFullYear()\<close>, \<^verbatim>\<open>getMonth()\<close> from 0, \<^verbatim>\<open>getDate()\<close> from 1) and its time of day.
\<close>

record clock =
  getFullYear :: int
  getMonth :: int
  getDate :: int
  getTimeInDay :: int

definition daysInMonth :: "int \<Rightarrow> int \<Rightarrow> int" where
  "daysInMonth y m =
     (if m = 1 then (if InLeapYear y then 29 else 28)
      else if m = 3 \<or> m = 5 \<or> m = 8 \<or> m = 10 then 30 else 31)"

definition validClock :: "clock \<Rightarrow> bool" where
  "validClock c = (0 \<le> getMonth c \<and> getMonth c \<le> 11
     \<and> 1 \<le> getDate c \<and> getDate c \<le> daysInMonth (getFullYear c) (getMonth c)
     \<and> 0 \<le> getTimeInDay c \<and> getTimeInDay c < msPerDay)"

definition nowDate :: "clock \<Rightarrow> Date" where
  "nowDate c = \<lparr>dayNumber = MakeDay (getFullYear c) (getMonth c) (getDate c),
                timeInDay = getTimeInDay c\<rparr>"

text \<open>\<^verbatim>\<open>date.setMonth(date.getMonth() + 1)\<close> on the clock's date\<close>

definition nextMonth :: "clock \<Rightarrow> Date" where
  "nextMonth c = \<lparr>dayNumber = MakeDay (getFullYear c) (getMonth c + 1) (getDate c),
                  timeInDay = getTimeInDay c\<rparr>"

definition DATE_EXPRESSIONS :: "(string \<times> (clock \<Rightarrow> Date)) list" where
  "DATE_EXPRESSIONS =
     [(''today'', \<lambda>c. nowDate c),
      (''tomorrow'', \<lambda>c. addDays 1 (nowDate c)),
      (''day after tomorrow'', \<lambda>c. addDays 2 (nowDate c)),
      (''next week'', \<lambda>c. addDays 7 (nowDate c)),
      (''weekend'', \<lambda>c. addDays (6 - getDay (nowDate c)) (nowDate c)),
      (''month end'', \<lambda>c. newDate (getFullYear c) (getMonth c + 1) 0),
      (''next month'', \<lambda>c. nextMonth c),
      (''christmas'', \<lambda>c. newDate (getFullYear c) 11 25),
      (''new year'', \<lambda>c. newDate (getFullYear c + 1) 0 1)]"

definition isValidFutureDate :: "clock \<Rightarrow> Date \<Rightarrow> bool" where
  "isValidFutureDate c d = (valueOf (atMidnight (nowDate c)) \<le> valueOf d)"

text \<open>The return of every pattern branch: \<^verbatim>\<open>isValidFutureDate(date) ? date : null\<close>\<close>

definition futureOrNull :: "clock \<Rightarrow> Date \<Rightarrow> Date option" where
  "futureOrNull c d = (if isValidFutureDate c d then Some d else None)"

definition numericDatePattern :: regex where
  "numericDatePattern =
     Seq Bol (Seq (Grp 1 (Rep 1 (Some 2) CDigit)) (Seq (Cls (CChars ''-/''))
     (Seq (Grp 2 (Rep 1 (Some 2) CDigit))
     (Seq (Opt (Seq (Cls (CChars ''-/'')) (Grp 3 (Rep 4 (Some 4) CDigit)))) Eol))))"

definition monthNames :: "string list" where
  "monthNames = [''january'', ''february'', ''march'', ''april'', ''may'', ''june'', ''july'',
     ''august'', ''september'', ''october'', ''november'', ''december'']"

definition dayNumbers :: "(string \<times> int) list" where
  "dayNumbers =
     [(''first'', 1), (''second'', 2), (''third'', 3), (''fourth'', 4), (''fifth'', 5),
      (''sixth'', 6), (''seventh'', 7), (''eighth'', 8), (''ninth'', 9), (''tenth'', 10),
      (''eleventh'', 11), (''twelfth'', 12), (''thirteenth'', 13), (''fourteenth'', 14),
      (''fifteenth'', 15), (''sixteenth'', 16), (''seventeenth'', 17), (''eighteenth'', 18),
      (''nineteenth'', 19), (''twentieth'', 20), (''twenty-first'', 21), (''twenty-second'', 22),
      (''twenty-third'', 23), (''twenty-fourth'', 24), (''twenty-fifth'', 25),
      (''twenty-sixth'', 26), (''twenty-seventh'', 27), (''twenty-eighth'', 28),
      (''twenty-ninth'', 29), (''thirtieth'', 30), (''thirty-first'', 31)]"

text \<open>An optional trailing year: \<^verbatim>\<open>(?:\s+(\d{4}))?\<close> with the year in group \<open>n\<close>.\<close>

definition optYear :: "nat \<Rightarrow> regex" where
  "optYear n = Opt (Seq (Rep 1 None CSpace) (Grp n (Rep 4 (Some 4) CDigit)))"

definition pattern1 :: "string \<Rightarrow> regex" where
  "pattern1 monthName =
     Seq (Grp 1 (Rep 1 (Some 2) CDigit))
     (Seq (Opt (Alt (Lit ''st'') (Alt (Lit ''nd'') (Alt (Lit ''rd'') (Lit ''th'')))))
     (Seq (Rep 1 None CSpace) (Seq (Lit (take 3 monthName)) (Seq (Rep 0 None CWord) (optYear 2)))))"

definition pattern2 :: "string \<Rightarrow> string \<Rightarrow> regex" where
  "pattern2 dayWord monthName =
     Seq (Lit dayWord) (Seq (Rep 1 None CSpace) (Seq (Lit monthName) (optYear 1)))"

text \<open>The year of a match: the group when it is there, else this year.\<close>

definition yearOf :: "clock \<Rightarrow> string option \<Rightarrow> int option" where
  "yearOf c g =
     (case g of
        None \<Rightarrow> Some (getFullYear c)
      | Some y \<Rightarrow> if y = [] then Some (getFullYear c) else parseInt y)"

text \<open>\<^verbatim>\<open>new Date(year, month, day)\<close> on numbers: a \<^verbatim>\<open>NaN\<close> argument gives an invalid date
  (\<open>None\<close>), which is never a valid future date.\<close>

definition newDateOf :: "int option \<Rightarrow> int option \<Rightarrow> int option \<Rightarrow> Date option" where
  "newDateOf year month dt =
     (case (year, month, dt) of
        (Some y, Some m, Some d) \<Rightarrow> Some (newDate y m d)
      | _ \<Rightarrow> None)"

definition datedOrNull :: "clock \<Rightarrow> int option \<Rightarrow> int option \<Rightarrow> int option \<Rightarrow> Date option" where
  "datedOrNull c year month dt =
     (case newDateOf year month dt of
        None \<Rightarrow> None
      | Some date \<Rightarrow> futureOrNull c date)"

text \<open>The inner loop over the spelled ordinals, for one month.\<close>

fun ordinalLoop :: "clock \<Rightarrow> string \<Rightarrow> string \<Rightarrow> int \<Rightarrow> (string \<times> int) list \<Rightarrow> Date option option" where
  "ordinalLoop c lowerInput monthName month [] = None"
| "ordinalLoop c lowerInput monthName month ((dayWord, dayNum) # ds) =
     (case strMatch True (pattern2 dayWord monthName) lowerInput of
        Some match2 \<Rightarrow>
          Some (datedOrNull c (yearOf c (capture match2 1)) (Some month) (Some dayNum))
      | None \<Rightarrow> ordinalLoop c lowerInput monthName month ds)"

text \<open>The loop over the month names; \<open>Some r\<close> is a \<^verbatim>\<open>return r\<close> from inside the loop.\<close>

fun monthLoop :: "clock \<Rightarrow> string \<Rightarrow> int \<Rightarrow> string list \<Rightarrow> Date option option" where
  "monthLoop c lowerInput month [] = None"
| "monthLoop c lowerInput month (monthName # names) =
     (case strMatch True (pattern1 monthName) lowerInput of
        Some match1 \<Rightarrow>
          Some (datedOrNull c (yearOf c (capture match1 2)) (Some month)
                  (case capture match1 1 of None \<Rightarrow> None | Some g \<Rightarrow> parseInt g))
      | None \<Rightarrow>
          (case ordinalLoop c lowerInput monthName month dayNumbers of
             Some r \<Rightarrow> Some r
           | None \<Rightarrow> monthLoop c lowerInput (month + 1) names))"

text \<open>
  \<open>parseDateInput\<close>. The last branch hands the raw input to the date parser of the
  runtime, \<^verbatim>\<open>new Date(input)\<close>, whose grammar the language leaves to the implementation: it is
  the parameter \<open>dateParse\<close>, with \<open>None\<close> for an invalid date.
\<close>

definition parseDateInput :: "clock \<Rightarrow> (string \<Rightarrow> Date option) \<Rightarrow> string \<Rightarrow> Date option" where
  "parseDateInput c dateParse input =
     (let lowerInput = toLowerCase input in
      case firstExpression DATE_EXPRESSIONS lowerInput of
        Some dateOf \<Rightarrow> Some (dateOf c)
      | None \<Rightarrow>
     (case strMatch False numericDatePattern lowerInput of
        Some numericMatch \<Rightarrow>
          datedOrNull c (yearOf c (capture numericMatch 3))
            (map_option (\<lambda>m. m - 1) (case capture numericMatch 2 of None \<Rightarrow> None | Some g \<Rightarrow> parseInt g))
            (case capture numericMatch 1 of None \<Rightarrow> None | Some g \<Rightarrow> parseInt g)
      | None \<Rightarrow>
     (case monthLoop c lowerInput 0 monthNames of
        Some r \<Rightarrow> r
      | None \<Rightarrow>
     (case dateParse input of
        Some directDate \<Rightarrow> futureOrNull c directDate
      | None \<Rightarrow> None))))"

text \<open>
  The resolved date of an input, in the words of the specification: the date that the
  first matching non-relative branch (numeric, day number with month name, spelled ordinal
  with month name, generic parse) builds from the input, before the future-date rule is
  applied to it. It is what \<open>parseDateInput\<close> is compared with.
\<close>

fun resolvedOrdinal :: "clock \<Rightarrow> string \<Rightarrow> string \<Rightarrow> int \<Rightarrow> (string \<times> int) list \<Rightarrow> Date option option" where
  "resolvedOrdinal c lowerInput monthName month [] = None"
| "resolvedOrdinal c lowerInput monthName month ((dayWord, dayNum) # ds) =
     (case strMatch True (pattern2 dayWord monthName) lowerInput of
        Some match2 \<Rightarrow> Some (newDateOf (yearOf c (capture match2 1)) (Some month) (Some dayNum))
      | None \<Rightarrow> resolvedOrdinal c lowerInput monthName month ds)"

fun resolvedMonth :: "clock \<Rightarrow> string \<Rightarrow> int \<Rightarrow> string list \<Rightarrow> Date option option" where
  "resolvedMonth c lowerInput month [] = None"
| "resolvedMonth c lowerInput month (monthName # names) =
     (case strMatch True (pattern1 monthName) lowerInput of
        Some match1 \<Rightarrow>
          Some (newDateOf (yearOf c (capture match1 2)) (Some month)
                  (case capture match1 1 of None \<Rightarrow> None | Some g \<Rightarrow> parseInt g))
      | None \<Rightarrow>
          (case resolvedOrdinal c lowerInput monthName month dayNumbers of
             Some r \<Rightarrow> Some r
           | None \<Rightarrow> resolvedMonth c lowerInput (month + 1) names))"

definition resolvedDate :: "clock \<Rightarrow> (string \<Rightarrow> Date option) \<Rightarrow> string \<Rightarrow> Date option" where
  "resolvedDate c dateParse input =
     (let lowerInput = toLowerCase input in
      case strMatch False numericDatePattern lowerInput of
        Some numericMatch \<Rightarrow>
          newDateOf (yearOf c (capture numericMatch 3))
            (map_option (\<lambda>m. m - 1) (case capture numericMatch 2 of None \<Rightarrow> None | Some g \<Rightarrow> parseInt g))
            (case capture numericMatch 1 of None \<Rightarrow> None | Some g \<Rightarrow> parseInt g)
      | None \<Rightarrow>
     (case resolvedMonth c lowerInput 0 monthNames of
        Some r \<Rightarrow> r
      | None \<Rightarrow> dateParse input))"

text \<open>\<open>getWeekdayDate\<close>\<close>

definition weekdays :: "string list" where
  "weekdays = [''sunday'', ''monday'', ''tuesday'', ''wednesday'', ''thursday'', ''friday'', ''saturday'']"

fun indexOf :: "'a list \<Rightarrow> 'a \<Rightarrow> int" where
  "indexOf [] x = - 1"
| "indexOf (y # ys) x = (if y = x then 0 else (let i = indexOf ys x in if i = - 1 then - 1 else i + 1))"

definition getWeekdayDate :: "clock \<Rightarrow> string \<Rightarrow> string \<Rightarrow> Date option" where
  "getWeekdayDate c weekday qualifier =
     (let today = nowDate c;
          targetDay = indexOf weekdays (toLowerCase weekday)
      in if targetDay = - 1 then None
         else let currentDay = getDay today;
                  q = toLowerCase qualifier
              in if q = ''next'' then Some (addDays (targetDay - currentDay + 7) today)
                 else if q = ''this'' \<or> q = ''coming'' then
                   Some (addDays (let daysToAdd = targetDay - currentDay
                                  in if daysToAdd \<le> 0 then daysToAdd + 7 else daysToAdd) today)
                 else if q = ''last'' then
                   (let lastDay = newDate (getFullYear c) (getMonth c + 1) 0;
                        lastDayWeekday = getDay lastDay;
                        daysToAdd = targetDay - lastDayWeekday
                    in Some (addDays (if 0 < daysToAdd then daysToAdd - 7 else daysToAdd) lastDay))
                 else
                   Some (addDays (let daysToAdd = targetDay - currentDay
                                  in if daysToAdd \<le> 0 then daysToAdd + 7 else daysToAdd) today))"

section \<open>The dialogue state\<close>

datatype step =
    S_date
  | S_time
  | S_email
  | S_duration
  | S_description
  | S_confirm
  | S_confirm_cancel
  | S_select_cancel

record CalendarEvent =
  eventId :: string
  summary :: "string option"
  eventDescription :: "string option"
  startDateTime :: string
  eventAttendees :: "string list option"

record details =
  date :: "Date option"
  time :: "string option"
  duration :: "int option"
  attendees :: "string list"
  description :: "string option"
  meetingId :: "string option"
  meetings :: "CalendarEvent list option"

record MeetingState =
  step :: step
  details :: details

text \<open>\<open>userMeetingStates\<close>: the dialogue of each user, by user id.\<close>

type_synonym store = "int \<rightharpoonup> MeetingState"

text \<open>Truthiness of an optional string and of an optional number.\<close>

definition truthyStr :: "string option \<Rightarrow> bool" where
  "truthyStr x = (case x of None \<Rightarrow> False | Some s \<Rightarrow> s \<noteq> [])"

definition truthyNum :: "int option \<Rightarrow> bool" where
  "truthyNum x = (case x of None \<Rightarrow> False | Some n \<Rightarrow> n \<noteq> 0)"

section \<open>The analysis of the first message\<close>

text \<open>\<^verbatim>\<open>s.match(r)\<close> for a pattern with the flag \<^verbatim>\<open>g\<close>: the texts of all matches, left to right,
  each search starting where the match before ended (one character further after an empty
  match). \<open>skip\<close> counts the characters still inside the match before.\<close>

fun matchAllFrom :: "bool \<Rightarrow> regex \<Rightarrow> string \<Rightarrow> string \<Rightarrow> nat \<Rightarrow> string list" where
  "matchAllFrom ic r pre [] skip =
     (if 0 < skip then []
      else (case ms ic r (pre, [], []) of [] \<Rightarrow> [] | _ # _ \<Rightarrow> [Nil]))"
| "matchAllFrom ic r pre (x # rest) skip =
     (if 0 < skip then matchAllFrom ic r (x # pre) rest (skip - 1)
      else (case ms ic r (pre, x # rest, []) of
              [] \<Rightarrow> matchAllFrom ic r (x # pre) rest 0
            | (pre', rest', caps) # _ \<Rightarrow>
                (let n = length (x # rest) - length rest'
                 in take n (x # rest) # matchAllFrom ic r (x # pre) rest (n - 1))))"

definition matchAll :: "bool \<Rightarrow> regex \<Rightarrow> string \<Rightarrow> string list" where
  "matchAll ic r s = matchAllFrom ic r [] s 0"

definition timePattern :: regex where
  "timePattern =
     Seq (Grp 1 (Rep 1 (Some 2) CDigit))
     (Seq (Opt (Seq (Lit '':'') (Grp 2 (Rep 2 (Some 2) CDigit))))
     (Seq (Rep 0 None CSpace)
          (Opt (Grp 3 (Alt (Lit ''am'') (Alt (Lit ''pm'') (Alt (Lit ''AM'') (Lit ''PM''))))))))"

definition namePattern :: regex where
  "namePattern =
     Seq (Alt (Lit ''with'') (Lit ''for''))
     (Seq (Rep 1 None CSpace)
          (Grp 1 (Rep 1 None (CUnion (CRange CHR ''A'' CHR ''Z'') (CRange CHR ''a'' CHR ''z'')))))"

definition datePattern :: regex where
  "datePattern =
     Seq (Alt (Lit ''on'') (Alt (Lit ''for'') (Alt (Lit ''next'') (Alt (Lit ''today'') (Lit ''tomorrow'')))))
     (Seq (Rep 0 None CSpace)
          (Opt (Grp 1 (Alt (Lit ''monday'') (Alt (Lit ''tuesday'') (Alt (Lit ''wednesday'')
                      (Alt (Lit ''thursday'') (Alt (Lit ''friday'') (Alt (Lit ''saturday'')
                      (Alt (Lit ''sunday'') (Alt (Lit ''tomorrow'') (Lit ''today''))))))))))))"

definition durationPattern :: regex where
  "durationPattern =
     Seq (Grp 1 (Rep 1 None CDigit))
     (Seq (Rep 0 None CSpace)
          (Alt (Lit ''min'')
          (Alt (Seq (Lit ''minute'') (Opt (Lit ''s'')))
          (Alt (Seq (Lit ''hr'') (Opt (Lit ''s'')))
               (Seq (Lit ''hour'') (Opt (Lit ''s'')))))))"

definition emailPattern :: regex where
  "emailPattern =
     Seq (Rep 1 None (CUnion CWord (CChars ''.-'')))
     (Seq (Lit ''@'')
     (Seq (Rep 1 None (CUnion CWord (CChars ''.-'')))
     (Seq (Lit ''.'') (Rep 1 None CWord))))"

definition descPattern :: regex where
  "descPattern =
     Seq (Alt (Lit ''with description'')
         (Alt (Seq (Lit ''description'') (Opt (Lit '':'')))
         (Alt (Lit ''about'') (Lit ''regarding''))))
     (Seq (Rep 0 None CSpace)
     (Seq (Opt (Cls (CChars [CHR 0x22, CHR 0x27])))
     (Seq (Grp 1 (NRep 1 None (CChars [CHR 0x22, CHR 0x27])))
          (Opt (Cls (CChars [CHR 0x22, CHR 0x27]))))))"

record extractedInfo =
  xTime :: "string option"
  xName :: "string option"
  xDate :: "string option"
  xDuration :: "int option"
  xEmails :: "string list"
  xDescription :: "string option"

record analysis =
  hasTime :: bool
  hasName :: bool
  hasDate :: bool
  hasDuration :: bool
  hasEmail :: bool
  extractedInfo :: extractedInfo

definition analyzeMeetingRequest :: "string \<Rightarrow> analysis" where
  "analyzeMeetingRequest message =
     (let timeMatch = strMatch False timePattern message;
          nameMatch = strMatch True namePattern message;
          dateMatch = strMatch True datePattern message;
          durationMatch = strMatch True durationPattern message;
          emailMatches = matchAll False emailPattern message;
          descMatch = strMatch True descPattern message;
          hasToday = includesStr (toLowerCase message) ''today'';
          noDesc = includesStr (toLowerCase message) ''no description'';
          duration =
            (case durationMatch of
               None \<Rightarrow> None
             | Some m \<Rightarrow>
                 (let num = (case capture m 1 of None \<Rightarrow> None | Some g \<Rightarrow> parseInt g);
                      unit = toLowerCase (matched m)
                  in if includesStr unit ''hour'' then map_option (\<lambda>n. n * 60) num else num))
      in \<lparr>hasTime = (timeMatch \<noteq> None),
          hasName = (nameMatch \<noteq> None),
          hasDate = (hasToday \<or> dateMatch \<noteq> None),
          hasDuration = (durationMatch \<noteq> None),
          hasEmail = (0 < length emailMatches),
          extractedInfo =
            \<lparr>xTime = (case timeMatch of
                         None \<Rightarrow> None
                       | Some m \<Rightarrow> (let t = extractTime (matched m)
                                   in if truthyStr t then t else None)),
             xName = (case nameMatch of None \<Rightarrow> None | Some m \<Rightarrow> capture m 1),
             xDate = (if hasToday then Some ''today''
                      else (case dateMatch of
                              None \<Rightarrow> None
                            | Some m \<Rightarrow> if truthyStr (capture m 1) then capture m 1 else None)),
             xDuration = duration,
             xEmails = emailMatches,
             xDescription = (if noDesc then None
                             else (case descMatch of None \<Rightarrow> None | Some m \<Rightarrow> capture m 1))\<rparr>\<rparr>)"

definition validateEmail :: "string \<Rightarrow> string option" where
  "validateEmail email =
     (if rtest False
           (Seq Bol
           (Seq (Rep 1 None (CUnion (CRange CHR ''a'' CHR ''z'') (CUnion (CRange CHR ''A'' CHR ''Z'')
                             (CUnion (CRange CHR ''0'' CHR ''9'') (CChars ''._%+-'')))))
           (Seq (Lit ''@'')
           (Seq (Rep 1 None (CUnion (CRange CHR ''a'' CHR ''z'') (CUnion (CRange CHR ''A'' CHR ''Z'')
                             (CUnion (CRange CHR ''0'' CHR ''9'') (CChars ''.-'')))))
           (Seq (Lit ''.'')
           (Seq (Rep 2 None (CUnion (CRange CHR ''a'' CHR ''z'') (CRange CHR ''A'' CHR ''Z'')))
                Eol))))))
           email
      then Some email else None)"

section \<open>The collaborators\<close>

text \<open>
  What the handlers read from outside the program: the clock, the date parser of the
  runtime, the calendar service (authorisation, creation and listing of events; \<open>None\<close>
  is a rejected promise) and the locale's rendering of an event's start time. Sending a
  reply is taken to succeed; the replies are recorded by which message of the source was
  sent, with the state it renders where it renders one.
\<close>

record env =
  now :: clock
  dateParse :: "string \<Rightarrow> Date option"
  isUserAuthorized :: "int \<Rightarrow> bool"
  startAuthProcess :: "int \<Rightarrow> string option"
  createMeeting :: "int \<Rightarrow> string \<Rightarrow> string \<Rightarrow> Date option \<Rightarrow> Date option \<Rightarrow> string list \<Rightarrow> bool"
  listUpcomingEvents :: "int \<Rightarrow> int \<Rightarrow> Date \<Rightarrow> Date \<Rightarrow> CalendarEvent list option"
  toLocaleTimeString :: "string \<Rightarrow> string"

datatype reply =
    R_cancelled
  | R_understood MeetingState
  | R_date_help
  | R_ask_time
  | R_ask_email
  | R_time_help
  | R_ask_duration
  | R_email_help
  | R_ask_description
  | R_duration_help
  | R_confirm_details MeetingState
  | R_authorize string
  | R_scheduled
  | R_not_scheduled
  | R_start_over
  | R_error_start_over
  | R_no_meetings
  | R_found_one CalendarEvent
  | R_found_many "CalendarEvent list"
  | R_cancel_error

section \<open>The scheduling dialogue\<close>

definition cancelKeywords :: "string list" where
  "cancelKeywords = [''cancel'', ''stop'', ''no'', ''quit'', ''exit'', ''nevermind'', ''never mind'']"

text \<open>\<^verbatim>\<open>cancelKeywords.some(keyword => userMessage.toLowerCase().includes(keyword))\<close>\<close>

definition hasCancelKeyword :: "string \<Rightarrow> bool" where
  "hasCancelKeyword userMessage =
     list_ex (\<lambda>keyword. includesStr (toLowerCase userMessage) keyword) cancelKeywords"

text \<open>The state built from the first message of a dialogue.\<close>

definition firstStep :: "details \<Rightarrow> step" where
  "firstStep d =
     (if date d = None then S_date
      else if \<not> truthyStr (time d) then S_time
      else if length (attendees d) = 0 then S_email
      else if \<not> truthyNum (duration d) then S_duration
      else S_confirm)"

definition initialState :: "env \<Rightarrow> string \<Rightarrow> MeetingState" where
  "initialState e userMessage =
     (let info = extractedInfo (analyzeMeetingRequest userMessage);
          d0 = \<lparr>date = None, time = None, duration = None, attendees = [],
                description = None, meetingId = None, meetings = None\<rparr>;
          d1 = (if truthyStr (xTime info) then d0\<lparr>time := xTime info\<rparr> else d0);
          d2 = (case xDate info of
                  None \<Rightarrow> d1
                | Some x \<Rightarrow>
                    if x = [] then d1
                    else (case parseDateInput (now e) (dateParse e) x of
                            None \<Rightarrow> d1
                          | Some parsedDate \<Rightarrow> d1\<lparr>date := Some parsedDate\<rparr>));
          d3 = (if truthyNum (xDuration info) then d2\<lparr>duration := xDuration info\<rparr> else d2);
          d4 = (if 0 < length (xEmails info) then d3\<lparr>attendees := xEmails info\<rparr> else d3);
          d5 = (if xDescription info \<noteq> None then d4\<lparr>description := xDescription info\<rparr> else d4);
          d6 = (if includesStr (toLowerCase userMessage) ''today''
                then d5\<lparr>date := Some (nowDate (now e))\<rparr> else d5)
      in \<lparr>step = firstStep d6, details = d6\<rparr>)"

text \<open>\<^verbatim>\<open>s.split(c)\<close> for a one-character separator.\<close>

fun splitOn :: "char \<Rightarrow> string \<Rightarrow> string list" where
  "splitOn sep [] = [Nil]"
| "splitOn sep (c # cs) =
     (if c = sep then [] # splitOn sep cs
      else (case splitOn sep cs of [] \<Rightarrow> [c # Nil] | w # ws \<Rightarrow> (c # w) # ws))"

text \<open>\<^verbatim>\<open>d.setHours(h, m)\<close> keeps seconds and milliseconds and carries whole days;
  \<^verbatim>\<open>new Date(d.getTime() + ms)\<close>. A \<^verbatim>\<open>NaN\<close> argument gives an invalid date (\<open>None\<close>).\<close>

definition addMs :: "int \<Rightarrow> Date \<Rightarrow> Date" where
  "addMs k d =
     \<lparr>dayNumber = dayNumber d + (timeInDay d + k) div msPerDay,
      timeInDay = (timeInDay d + k) mod msPerDay\<rparr>"

definition setHours :: "int option \<Rightarrow> int option \<Rightarrow> Date \<Rightarrow> Date option" where
  "setHours h m d =
     (case (h, m) of
        (Some hh, Some mm) \<Rightarrow>
          Some (addMs (hh * 3600000 + mm * 60000 + timeInDay d mod 60000) (atMidnight d))
      | _ \<Rightarrow> None)"

text \<open>
  How the body of the \<^verbatim>\<open>try\<close> block ends: by \<^verbatim>\<open>return\<close>, by leaving the \<^verbatim>\<open>switch\<close> with
  \<^verbatim>\<open>break\<close> (the statement after the \<^verbatim>\<open>switch\<close> then stores the state again), or by an
  exception for the \<^verbatim>\<open>catch\<close> block.
\<close>

datatype outcome =
    Returned store "reply list"
  | Broke store MeetingState "reply list"
  | Thrown store "reply list"

text \<open>The branch \<^verbatim>\<open>case 'confirm'\<close>\<close>

definition confirmStep :: "env \<Rightarrow> store \<Rightarrow> int \<Rightarrow> string \<Rightarrow> MeetingState \<Rightarrow> outcome" where
  "confirmStep e states userId userMessage state =
     (if includesStr (toLowerCase userMessage) ''yes'' then
        (if \<not> isUserAuthorized e userId then
           (case startAuthProcess e userId of
              None \<Rightarrow> Thrown states []
            | Some authUrl \<Rightarrow> Returned states [R_authorize authUrl])
         else
           (case time (details state) of
              None \<Rightarrow> Thrown states []
            | Some t \<Rightarrow>
           (case attendees (details state) of
              [] \<Rightarrow> Thrown states []
            | first # _ \<Rightarrow>
                (let parts = splitOn CHR '':'' t;
                     hours = (case parts of [] \<Rightarrow> None | x # _ \<Rightarrow> parseInt x);
                     minutes = (case parts of _ # x # _ \<Rightarrow> parseInt x | _ \<Rightarrow> None);
                     startTime = setHours hours minutes
                       (case date (details state) of
                          None \<Rightarrow> \<lparr>dayNumber = 0, timeInDay = 0\<rparr>
                        | Some d \<Rightarrow> d);
                     endTime = (case (startTime, duration (details state)) of
                                  (Some st, Some n) \<Rightarrow> Some (addMs (n * 60000) st)
                                | _ \<Rightarrow> None);
                     success = createMeeting e userId
                       (''Meeting with '' @ takeWhile (\<lambda>c. c \<noteq> CHR ''@'') first)
                       (case description (details state) of
                          None \<Rightarrow> ''Meeting scheduled via Remo''
                        | Some d \<Rightarrow> if d = [] then ''Meeting scheduled via Remo'' else d)
                       startTime endTime (attendees (details state))
                 in Broke (states(userId := None)) state
                      [if success then R_scheduled else R_not_scheduled]))))
      else if toLowerCase userMessage \<notin> set cancelKeywords then
        Broke (states(userId := None)) state [R_start_over]
      else Broke states state [])"

text \<open>The \<^verbatim>\<open>switch\<close> over the step of an open dialogue.\<close>

definition stepSwitch :: "env \<Rightarrow> store \<Rightarrow> int \<Rightarrow> string \<Rightarrow> MeetingState \<Rightarrow> outcome" where
  "stepSwitch e states userId userMessage state =
     (case step state of
        S_date \<Rightarrow>
          (case parseDateInput (now e) (dateParse e) userMessage of
             None \<Rightarrow> Returned states [R_date_help]
           | Some parsedDate \<Rightarrow>
               Broke states
                 (state\<lparr>details := (details state)\<lparr>date := Some parsedDate\<rparr>,
                         step := (if truthyStr (time (details state)) then S_email else S_time)\<rparr>)
                 [if truthyStr (time (details state)) then R_ask_email else R_ask_time])
      | S_time \<Rightarrow>
          (case extractTime userMessage of
             None \<Rightarrow> Returned states [R_time_help]
           | Some timeDetails \<Rightarrow>
               if timeDetails = [] then Returned states [R_time_help]
               else Broke states
                 (state\<lparr>details := (details state)\<lparr>time := Some timeDetails\<rparr>,
                         step := (if 0 < length (attendees (details state)) then S_duration else S_email)\<rparr>)
                 [if 0 < length (attendees (details state)) then R_ask_duration else R_ask_email])
      | S_email \<Rightarrow>
          (case validateEmail userMessage of
             None \<Rightarrow> Returned states [R_email_help]
           | Some email \<Rightarrow>
               if email = [] then Returned states [R_email_help]
               else Broke states
                 (state\<lparr>details := (details state)\<lparr>attendees := [email]\<rparr>,
                         step := (if truthyNum (duration (details state)) then S_description else S_duration)\<rparr>)
                 [if truthyNum (duration (details state)) then R_ask_description else R_ask_duration])
      | S_duration \<Rightarrow>
          (case parseInt userMessage of
             None \<Rightarrow> Returned states [R_duration_help]
           | Some n \<Rightarrow>
               if n \<le> 0 \<or> 480 < n then Returned states [R_duration_help]
               else Broke states
                 (state\<lparr>details := (details state)\<lparr>duration := Some n\<rparr>, step := S_description\<rparr>)
                 [R_ask_description])
      | S_description \<Rightarrow>
          (let state' = (if toLowerCase userMessage \<noteq> ''skip''
                         then state\<lparr>details := (details state)\<lparr>description := Some userMessage\<rparr>\<rparr>
                         else state)
           in Broke states (state'\<lparr>step := S_confirm\<rparr>) [R_confirm_details (state'\<lparr>step := S_confirm\<rparr>)])
      | S_confirm \<Rightarrow> confirmStep e states userId userMessage state
      | S_confirm_cancel \<Rightarrow> Broke states state []
      | S_select_cancel \<Rightarrow> Broke states state [])"

definition tryBody :: "env \<Rightarrow> store \<Rightarrow> int \<Rightarrow> string \<Rightarrow> outcome" where
  "tryBody e states userId userMessage =
     (case states userId of
        Some state \<Rightarrow>
          if hasCancelKeyword userMessage then Returned (states(userId := None)) [R_cancelled]
          else stepSwitch e states userId userMessage state
      | None \<Rightarrow>
          (let state = initialState e userMessage
           in Returned (states(userId \<mapsto> state)) [R_understood state]))"

definition handleMeetingRequest :: "env \<Rightarrow> store \<Rightarrow> int \<Rightarrow> string \<Rightarrow> store \<times> reply list" where
  "handleMeetingRequest e states userId userMessage =
     (case tryBody e states userId userMessage of
        Returned states' replies \<Rightarrow> (states', replies)
      | Broke states' state replies \<Rightarrow> (states'(userId \<mapsto> state), replies)
      | Thrown states' replies \<Rightarrow> (states'(userId := None), replies @ [R_error_start_over]))"

section \<open>The router\<close>

text \<open>A list of alternatives \<^verbatim>\<open>(a|b|...)\<close> between word boundaries, in capture group 1.\<close>

fun alts :: "regex list \<Rightarrow> regex" where
  "alts [] = Lit []"
| "alts [r] = r"
| "alts (r # rs) = Alt r (alts rs)"

definition wordOf :: "regex list \<Rightarrow> regex" where
  "wordOf rs = Seq WordB (Seq (Grp 1 (alts rs)) WordB)"

definition meetingKeywords :: "regex list" where
  "meetingKeywords =
     [wordOf [Lit ''schedule'', Seq (Lit ''set'') (Seq (Rep 0 None CSpace) (Lit ''up'')),
              Lit ''book'', Lit ''arrange'', Lit ''plan''],
      wordOf [Lit ''update'', Lit ''change'', Lit ''modify''],
      wordOf [Lit ''reschedule'', Lit ''move'', Lit ''postpone''],
      wordOf [Lit ''cancel'', Lit ''delete''],
      Seq WordB (Seq (Lit ''meeting'') WordB),
      Seq WordB (Seq (Lit ''call'') WordB),
      Seq WordB (Seq (Lit ''appointment'') WordB)]"

definition isMeetingRequest :: "string \<Rightarrow> bool" where
  "isMeetingRequest message = list_ex (\<lambda>pattern. rtest True pattern message) meetingKeywords"

text \<open>The three patterns of \<open>handleMessage\<close>, run on the lower-cased message.\<close>

definition cancelPhrase :: regex where
  "cancelPhrase =
     Seq WordB (Seq (Grp 1 (alts [Lit ''cancel'', Lit ''delete''])) (Seq WordB
     (Seq (Rep 0 None CDot)
     (Seq WordB (Seq (Grp 2 (alts [Lit ''meeting'', Lit ''appointment''])) WordB)))))"

definition listPhrase :: regex where
  "listPhrase =
     Seq WordB (Seq (Grp 1 (alts [Lit ''check'', Lit ''list'', Lit ''show'', Lit ''view'', Lit ''get''])) (Seq WordB
     (Seq (Rep 0 None CDot)
     (Seq WordB (Seq (Grp 2 (alts [Lit ''meetings'', Lit ''schedule'', Lit ''calendar''])) WordB)))))"

definition updateVerb :: regex where
  "updateVerb =
     wordOf [Lit ''update'', Lit ''change'', Lit ''move'', Lit ''postpone'', Lit ''reschedule'']"

text \<open>\<open>handleCancelRequest\<close>, the only place that opens a dialogue at the steps
  \<open>confirm_cancel\<close> and \<open>select_cancel\<close>.\<close>

definition handleCancelRequest :: "env \<Rightarrow> store \<Rightarrow> int \<Rightarrow> string \<Rightarrow> store \<times> reply list" where
  "handleCancelRequest e states userId userMessage =
     (if \<not> isUserAuthorized e userId then
        (case startAuthProcess e userId of
           None \<Rightarrow> (states, [R_cancel_error])
         | Some authUrl \<Rightarrow> (states, [R_authorize authUrl]))
      else
        (let today = nowDate (now e);
             targetDate = atMidnight
               (if includesStr (toLowerCase userMessage) ''tomorrow'' then addDays 1 today else today);
             endDate = targetDate\<lparr>timeInDay := msPerDay - 1\<rparr>
         in case listUpcomingEvents e userId 1 targetDate endDate of
              None \<Rightarrow> (states, [R_cancel_error])
            | Some [] \<Rightarrow> (states, [R_no_meetings])
            | Some [meeting] \<Rightarrow>
                (states(userId \<mapsto>
                   \<lparr>step = S_confirm_cancel,
                    details = \<lparr>date = Some targetDate,
                               time = Some (toLocaleTimeString e (startDateTime meeting)),
                               duration = None,
                               attendees = (case eventAttendees meeting of None \<Rightarrow> [] | Some emails \<Rightarrow> emails),
                               description = eventDescription meeting,
                               meetingId = Some (eventId meeting),
                               meetings = None\<rparr>\<rparr>),
                 [R_found_one meeting])
            | Some found \<Rightarrow>
                (states(userId \<mapsto>
                   \<lparr>step = S_select_cancel,
                    details = \<lparr>date = Some targetDate, time = None, duration = None,
                               attendees = [], description = None,
                               meetingId = None, meetings = Some found\<rparr>\<rparr>),
                 [R_found_many found])))"

text \<open>
  \<open>handleMessage\<close>. An update carries its text, when it has one, and the id of its sender,
  when it has one. The result names the handler the message was given to. The handlers
  for listing, for updating and for chat never touch the dialogues; their replies come
  from the calendar and chat collaborators and are left out.
\<close>

record ctx =
  messageText :: "string option"
  fromId :: "int option"

datatype route =
    Ignored
  | To_handleMeetingRequest
  | To_handleCancelRequest
  | To_handleListMeetingsRequest
  | To_handleUpdateRequest
  | To_handleChat

definition handleMessage :: "env \<Rightarrow> store \<Rightarrow> ctx \<Rightarrow> route \<times> store \<times> reply list" where
  "handleMessage e states c =
     (case messageText c of
        None \<Rightarrow> (Ignored, states, [])
      | Some text \<Rightarrow>
     (case fromId c of
        None \<Rightarrow> (Ignored, states, [])
      | Some userId \<Rightarrow>
          if userId = 0 then (Ignored, states, [])
          else
            (let userMessage = trim text;
                 state = states userId
             in if isMeetingRequest userMessage \<or> state \<noteq> None then
                  (To_handleMeetingRequest, handleMeetingRequest e states userId userMessage)
                else if rtest False cancelPhrase (toLowerCase userMessage) then
                  (To_handleCancelRequest, handleCancelRequest e states userId userMessage)
                else if rtest False listPhrase (toLowerCase userMessage) then
                  (To_handleListMeetingsRequest, states, [])
                else if rtest False updateVerb (toLowerCase userMessage) then
                  (To_handleUpdateRequest, states, [])
                else (To_handleChat, states, []))))"

section \<open>A concrete environment\<close>

text \<open>
  Saturday 7 November 2026, ten in the morning; every user is authorised, the calendar
  accepts every meeting and lists none, and the date parser of the runtime rejects every
  text.
\<close>

definition exampleClock :: clock where
  "exampleClock = \<lparr>getFullYear = 2026, getMonth = 10, getDate = 7, getTimeInDay = 36000000\<rparr>"

definition exampleEnv :: env where
  "exampleEnv =
     \<lparr>now = exampleClock,
      dateParse = (\<lambda>_. None),
      isUserAuthorized = (\<lambda>_. True),
      startAuthProcess = (\<lambda>_. Some ''https://accounts.example/auth''),
      createMeeting = (\<lambda>_ _ _ _ _ _. True),
      listUpcomingEvents = (\<lambda>_ _ _ _. Some []),
      toLocaleTimeString = (\<lambda>s. s)\<rparr>"

definition exampleDetails :: details where
  "exampleDetails =
     \<lparr>date = Some \<lparr>dayNumber = 20765, timeInDay = 0\<rparr>, time = Some ''15:00'',
      duration = Some 30, attendees = [''john@x.com''], description = None,
      meetingId = None, meetings = None\<rparr>"

section \<open>Strings: facts\<close>

lemma startsWith_iff: "startsWith s t \<longleftrightarrow> (\<exists>ys. s = t @ ys)"
  by (induction s t rule: startsWith.induct) auto

lemma includesStr_iff: "includesStr s t \<longleftrightarrow> (\<exists>xs ys. s = xs @ t @ ys)"
proof (induction s)
  case Nil
  then show ?case by (simp add: startsWith_iff)
next
  case (Cons x s)
  show ?case
  proof
    assume "includesStr (x # s) t"
    then consider "startsWith (x # s) t" | "includesStr s t" by auto
    then show "\<exists>xs ys. x # s = xs @ t @ ys"
    proof cases
      case 1
      then obtain ys where "x # s = t @ ys" by (auto simp: startsWith_iff)
      then have "x # s = [] @ t @ ys" by simp
      then show ?thesis by blast
    next
      case 2
      with Cons.IH obtain xs ys where "s = xs @ t @ ys" by blast
      then have "x # s = (x # xs) @ t @ ys" by simp
      then show ?thesis by blast
    qed
  next
    assume "\<exists>xs ys. x # s = xs @ t @ ys"
    then obtain xs ys where eq: "x # s = xs @ t @ ys" by blast
    show "includesStr (x # s) t"
    proof (cases xs)
      case Nil
      with eq have "startsWith (x # s) t" by (auto simp: startsWith_iff)
      then show ?thesis by simp
    next
      case (Cons a as)
      with eq have "s = as @ t @ ys" by simp
      with Cons.IH have "includesStr s t" by blast
      then show ?thesis by simp
    qed
  qed
qed

lemma includesStr_toLowerCase:
  assumes "includesStr s t" and "toLowerCase t = t"
  shows "includesStr (toLowerCase s) t"
proof -
  from assms(1) obtain xs ys where "s = xs @ t @ ys" by (auto simp: includesStr_iff)
  then have "toLowerCase s = toLowerCase xs @ toLowerCase t @ toLowerCase ys"
    by (simp add: toLowerCase_def)
  with assms(2) show ?thesis by (auto simp: includesStr_iff)
qed

text \<open>The codes of the two case mappings, and what they preserve.\<close>

lemma of_char_lowerChar:
  "(of_char (lowerChar x) :: nat) = (if isUpper x then of_char x + 32 else of_char x)"
  by (simp add: lowerChar_def isUpper_def)

lemma of_char_upperChar:
  "(of_char (upperChar x) :: nat) = (if isLower x then of_char x - 32 else of_char x)"
proof -
  have "(of_char x :: nat) - 32 < 256"
    using nat_of_char_less_256[of x] by arith
  then show ?thesis by (simp add: upperChar_def)
qed

lemma case_arith:
  fixes k n :: nat
  assumes "97 \<le> k" and "k \<le> 122"
  shows "(k = (if 65 \<le> n \<and> n \<le> 90 then n + 32 else n))
       = (k - 32 = (if 97 \<le> n \<and> n \<le> 122 then n - 32 else n))"
  using assms by auto

lemma charEq_lowerChar:
  assumes "isLower c"
  shows "charEq False c (lowerChar x) = charEq True c x"
proof -
  have l: "(c = lowerChar x) = ((of_char c :: nat) = of_char (lowerChar x))"
    by (simp only: of_char_eq_iff)
  have u: "(upperChar c = upperChar x) = ((of_char (upperChar c) :: nat) = of_char (upperChar x))"
    by (simp only: of_char_eq_iff)
  from assms have k: "97 \<le> (of_char c :: nat)" "(of_char c :: nat) \<le> 122"
    by (simp_all add: isLower_def)
  have uc: "(of_char (upperChar c) :: nat) = of_char c - 32"
    using assms by (simp add: of_char_upperChar)
  have "(c = lowerChar x) = (upperChar c = upperChar x)"
    unfolding l u of_char_lowerChar uc of_char_upperChar[of x] isLower_def isUpper_def
    by (rule case_arith[OF k])
  then show ?thesis by (simp add: charEq_def)
qed

lemma underscore_code: "(c = CHR ''_'') = ((of_char c :: nat) = 95)"
proof -
  have v: "(of_char CHR ''_'' :: nat) = 95" by simp
  have "(c = CHR ''_'') = ((of_char c :: nat) = of_char CHR ''_'')"
    by (simp only: of_char_eq_iff)
  then show ?thesis by (simp only: v)
qed

lemma isWordChar_lowerChar: "isWordChar (lowerChar x) = isWordChar x"
  unfolding isWordChar_def isUpper_def isLower_def isDigit_def underscore_code of_char_lowerChar
  by auto

section \<open>Regular expressions: facts\<close>

lemma wordBoundary_lower:
  "wordBoundary (map lowerChar pre) (map lowerChar rest) = wordBoundary pre rest"
  by (cases pre; cases rest) (simp_all add: wordBoundary_def isWordChar_lowerChar)

text \<open>A literal matches in one way: its characters are the next ones of the input.\<close>

lemma matchLit_eq:
  "matchLit ic w (pre, rest, caps) =
     (if length w \<le> length rest \<and> list_all2 (charEq ic) w (take (length w) rest)
      then [(rev (take (length w) rest) @ pre, drop (length w) rest, caps)] else [])"
proof (induction w arbitrary: pre rest)
  case Nil
  then show ?case by simp
next
  case (Cons c w)
  show ?case
  proof (cases rest)
    case Nil
    then show ?thesis by simp
  next
    case (Cons x rest')
    then show ?thesis using Cons.IH[of "x # pre" rest'] by simp
  qed
qed

lemma list_all2_charEq_lower:
  assumes "list_all isLower w"
  shows "list_all2 (charEq False) w (map lowerChar xs) = list_all2 (charEq True) w xs"
  using assms
proof (induction w arbitrary: xs)
  case Nil
  then show ?case by simp
next
  case (Cons c w)
  then show ?case by (cases xs) (simp_all add: charEq_lowerChar)
qed

text \<open>A lower-case word between word boundaries: on the lower-cased input without the
  flag \<^verbatim>\<open>i\<close> it matches only where it matches on the input itself with the flag.\<close>

lemma word_lower:
  assumes "list_all isLower w"
    and "ms False (Seq WordB (Seq (Lit w) WordB)) (map lowerChar pre, map lowerChar rest, caps) \<noteq> []"
  shows "ms True (Seq WordB (Seq (Lit w) WordB)) (pre, rest, caps') \<noteq> []"
proof -
  let ?n = "length w"
  from assms(2) have b1: "wordBoundary pre rest"
    by (auto simp: wordBoundary_lower split: if_splits)
  from assms(2) have
    lit: "?n \<le> length rest"
         "list_all2 (charEq False) w (take ?n (map lowerChar rest))"
    and b2': "wordBoundary (rev (take ?n (map lowerChar rest)) @ map lowerChar pre)
                (drop ?n (map lowerChar rest))"
    by (auto simp: matchLit_eq split: if_splits)
  from lit(2) have lit': "list_all2 (charEq True) w (take ?n rest)"
    using list_all2_charEq_lower[OF assms(1), of "take ?n rest"] by (simp add: take_map)
  have "rev (take ?n (map lowerChar rest)) @ map lowerChar pre
        = map lowerChar (rev (take ?n rest) @ pre)"
    by (simp add: take_map rev_map)
  with b2' have b2: "wordBoundary (rev (take ?n rest) @ pre) (drop ?n rest)"
    using wordBoundary_lower[of "rev (take ?n rest) @ pre" "drop ?n rest"]
    by (simp add: drop_map take_map rev_map)
  from b1 lit(1) lit' b2 show ?thesis by (simp add: matchLit_eq)
qed

text \<open>The search finds a match exactly when the pattern matches at some position.\<close>

lemma searchFrom_iff:
  "searchFrom ic r pre rest \<noteq> None \<longleftrightarrow>
     (\<exists>k\<le>length rest. ms ic r (rev (take k rest) @ pre, drop k rest, []) \<noteq> [])"
proof (induction rest arbitrary: pre)
  case Nil
  then show ?case by (auto split: list.splits)
next
  case (Cons x rest)
  show ?case
  proof (cases "ms ic r (pre, x # rest, [])")
    case Nil
    then have "searchFrom ic r pre (x # rest) = searchFrom ic r (x # pre) rest" by simp
    also have "\<dots> \<noteq> None \<longleftrightarrow>
        (\<exists>k\<le>length rest. ms ic r (rev (take k rest) @ x # pre, drop k rest, []) \<noteq> [])"
      by (rule Cons.IH)
    also have "\<dots> \<longleftrightarrow>
        (\<exists>k\<le>length (x # rest). ms ic r (rev (take k (x # rest)) @ pre, drop k (x # rest), []) \<noteq> [])"
      (is "?L \<longleftrightarrow> ?R")
    proof
      assume ?L
      then obtain k where "k \<le> length rest"
        "ms ic r (rev (take k rest) @ x # pre, drop k rest, []) \<noteq> []" by blast
      then have "Suc k \<le> length (x # rest)"
        "ms ic r (rev (take (Suc k) (x # rest)) @ pre, drop (Suc k) (x # rest), []) \<noteq> []"
        by simp_all
      then show ?R by blast
    next
      assume ?R
      then obtain k where k: "k \<le> length (x # rest)"
        "ms ic r (rev (take k (x # rest)) @ pre, drop k (x # rest), []) \<noteq> []" by blast
      with Nil obtain j where "k = Suc j" by (cases k) auto
      with k have "j \<le> length rest"
        "ms ic r (rev (take j rest) @ x # pre, drop j rest, []) \<noteq> []" by simp_all
      then show ?L by blast
    qed
    finally show ?thesis .
  next
    case (Cons s ss)
    then have "searchFrom ic r pre (x # rest) \<noteq> None" by (simp split: prod.splits)
    moreover from Cons have "ms ic r (rev (take 0 (x # rest)) @ pre, drop 0 (x # rest), []) \<noteq> []"
      by simp
    then have "\<exists>k\<le>length (x # rest).
        ms ic r (rev (take k (x # rest)) @ pre, drop k (x # rest), []) \<noteq> []" by blast
    ultimately show ?thesis by blast
  qed
qed

lemma rtest_iff:
  "rtest ic r s \<longleftrightarrow> (\<exists>k\<le>length s. ms ic r (rev (take k s), drop k s, []) \<noteq> [])"
  using searchFrom_iff[of ic r "[]" s] by (simp add: rtest_def strMatch_def)

lemma bounded_word_of_phrase:
  assumes "ms ic (Seq WordB (Seq (Grp n (Alt (Lit u) (Lit v))) (Seq WordB X))) (pre, rest, caps) \<noteq> []"
  shows "ms ic (Seq WordB (Seq (Lit u) WordB)) (pre, rest, caps) \<noteq> []
       \<or> ms ic (Seq WordB (Seq (Lit v) WordB)) (pre, rest, caps) \<noteq> []"
  using assms by (auto simp: matchLit_eq closeGroup_def split: if_splits)

lemma wordOf_of_bounded_word:
  assumes "ms ic (Seq WordB (Seq (Lit u) WordB)) (pre, rest, caps) \<noteq> []
       \<or> ms ic (Seq WordB (Seq (Lit v) WordB)) (pre, rest, caps) \<noteq> []"
  shows "ms ic (wordOf [Lit u, Lit v]) (pre, rest, caps) \<noteq> []"
  using assms by (auto simp: wordOf_def matchLit_eq closeGroup_def split: if_splits)

section \<open>Time extraction: properties\<close>

lemma firstExpression_first:
  "i < length es \<Longrightarrow> includesStr lm (fst (es ! i)) \<Longrightarrow>
   (\<forall>j<i. \<not> includesStr lm (fst (es ! j))) \<Longrightarrow>
   firstExpression es lm = Some (snd (es ! i))"
proof (induction es arbitrary: i)
  case Nil
  then show ?case by simp
next
  case (Cons p es)
  obtain expr v where p: "p = (expr, v)" by (cases p)
  show ?case
  proof (cases i)
    case 0
    with Cons.prems p show ?thesis by simp
  next
    case (Suc k)
    from Cons.prems(3) Suc have "\<not> includesStr lm (fst ((p # es) ! 0))" by blast
    then have no: "\<not> includesStr lm expr" using p by simp
    have "\<forall>j<k. \<not> includesStr lm (fst (es ! j))"
    proof (intro allI impI)
      fix j assume "j < k"
      then have "Suc j < i" using Suc by simp
      with Cons.prems(3) have "\<not> includesStr lm (fst ((p # es) ! Suc j))" by blast
      then show "\<not> includesStr lm (fst (es ! j))" by simp
    qed
    with Cons.IH[of k] Cons.prems(1,2) Suc
    have "firstExpression es lm = Some (snd (es ! k))" by simp
    with no p Suc show ?thesis by simp
  qed
qed

text \<open>
  Claim C4, as amended. For every entry of the table of named time expressions and every
  message whose lower-cased text contains the entry's expression and none of the
  expressions declared before it, \<open>extractTime\<close> returns the entry's value: the first
  expression of the table that occurs in the message decides.
\<close>

theorem C4_first_expression_wins:
  assumes "i < length TIME_EXPRESSIONS"
    and "includesStr (toLowerCase message) (fst (TIME_EXPRESSIONS ! i))"
    and "\<forall>j<i. \<not> includesStr (toLowerCase message) (fst (TIME_EXPRESSIONS ! j))"
  shows "extractTime message = Some (snd (TIME_EXPRESSIONS ! i))"
  using firstExpression_first[OF assms] by (simp add: extractTime_def)

text \<open>The theorem at the entry for dinner, the twelfth of seventeen, and the message
  \<^verbatim>\<open>Dinner on Friday?\<close>\<close>

theorem C4_first_expression_wins_witness:
  "length TIME_EXPRESSIONS = 17
   \<and> TIME_EXPRESSIONS ! 11 = (''dinner'', ''19:00'')
   \<and> includesStr (toLowerCase ''Dinner on Friday?'') ''dinner''
   \<and> extractTime ''Dinner on Friday?'' = Some ''19:00''"
proof -
  have len: "(11::nat) < length TIME_EXPRESSIONS" by code_simp
  have nth: "TIME_EXPRESSIONS ! 11 = (''dinner'', ''19:00'')" by code_simp
  have inc: "includesStr (toLowerCase ''Dinner on Friday?'') (fst (TIME_EXPRESSIONS ! 11))" by code_simp
  have earlier: "list_all (\<lambda>j. \<not> includesStr (toLowerCase ''Dinner on Friday?'') (fst (TIME_EXPRESSIONS ! j))) [0..<11]"
    by code_simp
  have none: "\<forall>j<11. \<not> includesStr (toLowerCase ''Dinner on Friday?'') (fst (TIME_EXPRESSIONS ! j))"
    using earlier by (simp add: list_all_iff)
  have "extractTime ''Dinner on Friday?'' = Some (snd (TIME_EXPRESSIONS ! 11))"
    by (rule C4_first_expression_wins[OF len inc none])
  moreover have "length TIME_EXPRESSIONS = 17" by code_simp
  ultimately show ?thesis using nth inc by simp
qed

text \<open>
  Claim C4 as first stated fails: the message \<^verbatim>\<open>dinner at noon\<close> contains the expression
  \<^verbatim>\<open>dinner\<close>, declared with 19:00, and the result is the value of \<^verbatim>\<open>noon\<close>.
\<close>

theorem C4_counterexample:
  "includesStr (toLowerCase ''dinner at noon'') ''dinner''
   \<and> map_of TIME_EXPRESSIONS ''dinner'' = Some ''19:00''
   \<and> extractTime ''dinner at noon'' = Some ''12:00''"
  by code_simp

































































section \<open>Dates: properties\<close>

text \<open>From one year to the next, and from one month to the next.\<close>

lemma div_step:
  assumes "0 < (n::int)"
  shows "(x + 1) div n = x div n + (if (x + 1) mod n = 0 then 1 else 0)"
proof -
  have r: "0 \<le> x mod n" "x mod n < n" using assms by simp_all
  have x: "n * (x div n) + x mod n = x" by (rule mult_div_mod_eq)
  show ?thesis
  proof (cases "x mod n + 1 = n")
    case True
    have "n * (x div n + 1) = n * (x div n) + n" by (simp add: algebra_simps)
    with x True have eq: "x + 1 = n * (x div n + 1) + 0" by linarith
    have "(x + 1) div n = x div n + 1"
      using eq assms by (intro int_div_pos_eq[of "x + 1" n "x div n + 1" 0]) simp_all
    moreover have "(x + 1) mod n = 0"
      using eq assms by (intro int_mod_pos_eq[of "x + 1" n "x div n + 1" 0]) simp_all
    ultimately show ?thesis by simp
  next
    case False
    then have lt: "x mod n + 1 < n" using r by simp
    from x have eq: "x + 1 = n * (x div n) + (x mod n + 1)" by linarith
    have "(x + 1) div n = x div n"
      using eq r lt by (intro int_div_pos_eq[of "x + 1" n "x div n" "x mod n + 1"]) simp_all
    moreover have "(x + 1) mod n = x mod n + 1"
      using eq r lt by (intro int_mod_pos_eq[of "x + 1" n "x div n" "x mod n + 1"]) simp_all
    ultimately show ?thesis using r by simp
  qed
qed

lemma mod_shift: "(y - k * n) mod n = y mod (n::int)"
proof -
  have "(y - k * n) mod n = (y - (k * n) mod n) mod n" by (simp only: mod_diff_right_eq)
  also have "\<dots> = y mod n" by simp
  finally show ?thesis .
qed

lemma m4: "((y::int) - 1968) mod 4 = y mod 4" using mod_shift[of y 492 4] by simp

lemma m100: "((y::int) - 1900) mod 100 = y mod 100" using mod_shift[of y 19 100] by simp

lemma m400: "((y::int) - 1600) mod 400 = y mod 400" using mod_shift[of y 4 400] by simp

lemma d4: "((y::int) - 1968) div 4 = (y - 1969) div 4 + (if y mod 4 = 0 then 1 else 0)"
  using div_step[of 4 "y - 1969"] m4[of y] by simp

lemma d100: "((y::int) - 1900) div 100 = (y - 1901) div 100 + (if y mod 100 = 0 then 1 else 0)"
  using div_step[of 100 "y - 1901"] m100[of y] by simp

lemma d400: "((y::int) - 1600) div 400 = (y - 1601) div 400 + (if y mod 400 = 0 then 1 else 0)"
  using div_step[of 400 "y - 1601"] m400[of y] by simp

lemma leap_mod: "(y::int) mod 400 = 0 \<Longrightarrow> y mod 100 = 0" "(y::int) mod 100 = 0 \<Longrightarrow> y mod 4 = 0"
proof -
  have a: "(100::int) dvd 400" "(4::int) dvd 100" by simp_all
  show "y mod 400 = 0 \<Longrightarrow> y mod 100 = 0"
    using a(1) by (meson dvd_trans mod_eq_0_iff_dvd)
  show "y mod 100 = 0 \<Longrightarrow> y mod 4 = 0"
    using a(2) by (meson dvd_trans mod_eq_0_iff_dvd)
qed

lemma DayFromYear_Suc:
  "DayFromYear (y + 1) = DayFromYear y + 365 + (if InLeapYear y then 1 else 0)"
proof -
  define a where "a = (y - 1969) div 4"
  define b where "b = (y - 1901) div 100"
  define c where "c = (y - 1601) div 400"
  define a' where "a' = (y - 1968) div 4"
  define b' where "b' = (y - 1900) div 100"
  define c' where "c' = (y - 1600) div 400"
  have s: "y + 1 - 1969 = y - 1968" "y + 1 - 1901 = y - 1900" "y + 1 - 1601 = y - 1600"
    by simp_all
  have next_year: "DayFromYear (y + 1) = 365 * (y - 1970) + 365 + a' - b' + c'"
    unfolding DayFromYear_def s a'_def b'_def c'_def by (simp add: algebra_simps)
  have this_year: "DayFromYear y = 365 * (y - 1970) + a - b + c"
    unfolding DayFromYear_def a_def b_def c_def by simp
  have da: "a' = a + (if y mod 4 = 0 then 1 else 0)"
    unfolding a'_def a_def by (rule d4)
  have db: "b' = b + (if y mod 100 = 0 then 1 else 0)"
    unfolding b'_def b_def by (rule d100)
  have dc: "c' = c + (if y mod 400 = 0 then 1 else 0)"
    unfolding c'_def c_def by (rule d400)
  consider (n4) "y mod 4 \<noteq> 0" "y mod 100 \<noteq> 0" "y mod 400 \<noteq> 0"
    | (n100) "y mod 4 = 0" "y mod 100 \<noteq> 0" "y mod 400 \<noteq> 0"
    | (n400) "y mod 4 = 0" "y mod 100 = 0" "y mod 400 \<noteq> 0"
    | (y400) "y mod 4 = 0" "y mod 100 = 0" "y mod 400 = 0"
    using leap_mod[of y] by meson
  then show ?thesis
  proof cases
    case n4
    then have "\<not> InLeapYear y" "a' = a" "b' = b" "c' = c"
      using da db dc by (simp_all add: InLeapYear_def)
    then show ?thesis unfolding next_year this_year by simp
  next
    case n100
    then have "InLeapYear y" "a' = a + 1" "b' = b" "c' = c"
      using da db dc by (simp_all add: InLeapYear_def)
    then show ?thesis unfolding next_year this_year by simp
  next
    case n400
    then have "\<not> InLeapYear y" "a' = a + 1" "b' = b + 1" "c' = c"
      using da db dc by (simp_all add: InLeapYear_def)
    then show ?thesis unfolding next_year this_year by simp
  next
    case y400
    then have "InLeapYear y" "a' = a + 1" "b' = b + 1" "c' = c + 1"
      using da db dc by (simp_all add: InLeapYear_def)
    then show ?thesis unfolding next_year this_year by simp
  qed
qed

lemma month_cases:
  assumes "0 \<le> m" and "m \<le> (11::int)"
  shows "m = 0 \<or> m = 1 \<or> m = 2 \<or> m = 3 \<or> m = 4 \<or> m = 5
    \<or> m = 6 \<or> m = 7 \<or> m = 8 \<or> m = 9 \<or> m = 10 \<or> m = 11"
  using assms by arith

lemma MakeDay_next_month:
  assumes "0 \<le> m" and "m \<le> 11"
  shows "MakeDay y (m + 1) 0 = MakeDay y m 0 + daysInMonth y m"
  using month_cases[OF assms]
  by (elim disjE) (simp_all add: MakeDay_def monthStart_def daysInMonth_def DayFromYear_Suc)

lemma daysInMonth_bounds: "28 \<le> daysInMonth y m \<and> daysInMonth y m \<le> 31"
  by (simp add: daysInMonth_def)

lemma friday_index: "indexOf weekdays (toLowerCase ''friday'') = 5"
  by code_simp

lemma qualifier_facts:
  "toLowerCase ''next'' = ''next'' \<and> toLowerCase ''last'' = ''last''"
  by code_simp

lemma next_friday:
  "getWeekdayDate c ''friday'' ''next''
     = Some (addDays (5 - getDay (nowDate c) + 7) (nowDate c))"
  using qualifier_facts by (simp add: getWeekdayDate_def friday_index Let_def)

lemma last_friday:
  "getWeekdayDate c ''friday'' ''last''
     = Some (addDays (if 0 < 5 - getDay (newDate (getFullYear c) (getMonth c + 1) 0)
                      then 5 - getDay (newDate (getFullYear c) (getMonth c + 1) 0) - 7
                      else 5 - getDay (newDate (getFullYear c) (getMonth c + 1) 0))
               (newDate (getFullYear c) (getMonth c + 1) 0))"
  using qualifier_facts by (simp add: getWeekdayDate_def friday_index Let_def)

text \<open>
  Claim C3, as amended. For every reading of the clock, \<open>getWeekdayDate\<close> with the
  qualifier \<^verbatim>\<open>next\<close> gives for \<^verbatim>\<open>friday\<close> a Friday that lies from 6 to 12 days after today; with
  the qualifier \<^verbatim>\<open>last\<close> (for a year from 100 on, where the constructor takes the year as it
  is) it gives the last Friday of the current month: day \<open>k\<close> of the clock's month, a
  Friday, with fewer than seven days of the month after it, whether it lies before or after
  today.
\<close>

theorem C3_next_and_last_friday:
  assumes "validClock c"
  shows "(case getWeekdayDate c ''friday'' ''next'' of
            None \<Rightarrow> False
          | Some d \<Rightarrow> getDay d = 5
              \<and> 6 \<le> dayNumber d - dayNumber (nowDate c)
              \<and> dayNumber d - dayNumber (nowDate c) \<le> 12)
    \<and> (100 \<le> getFullYear c \<longrightarrow>
        (case getWeekdayDate c ''friday'' ''last'' of
            None \<Rightarrow> False
          | Some d \<Rightarrow> getDay d = 5
              \<and> (let k = dayNumber d - MakeDay (getFullYear c) (getMonth c) 0
                 in 1 \<le> k \<and> k \<le> daysInMonth (getFullYear c) (getMonth c)
                    \<and> daysInMonth (getFullYear c) (getMonth c) < k + 7)))"
proof (intro conjI impI)
  show "case getWeekdayDate c ''friday'' ''next'' of
            None \<Rightarrow> False
          | Some d \<Rightarrow> getDay d = 5
              \<and> 6 \<le> dayNumber d - dayNumber (nowDate c)
              \<and> dayNumber d - dayNumber (nowDate c) \<le> 12"
    unfolding next_friday by (simp add: addDays_def getDay_def) presburger
next
  assume year: "100 \<le> getFullYear c"
  let ?y = "getFullYear c" and ?m = "getMonth c"
  from assms have m: "0 \<le> ?m" "?m \<le> 11" by (simp_all add: validClock_def)
  define L where "L = MakeDay ?y (?m + 1) 0"
  have last: "newDate ?y (?m + 1) 0 = \<lparr>dayNumber = L, timeInDay = 0\<rparr>"
    using year by (simp add: newDate_def L_def)
  have L: "L = MakeDay ?y ?m 0 + daysInMonth ?y ?m"
    unfolding L_def using m by (rule MakeDay_next_month)
  have dim: "28 \<le> daysInMonth ?y ?m" using daysInMonth_bounds by blast
  define a where "a = (if 0 < 5 - (L + 4) mod 7 then 5 - (L + 4) mod 7 - 7 else 5 - (L + 4) mod 7)"
  have a: "- 6 \<le> a" "a \<le> 0" "(L + a + 4) mod 7 = 5"
    unfolding a_def by presburger+
  have res: "getWeekdayDate c ''friday'' ''last'' = Some \<lparr>dayNumber = L + a, timeInDay = 0\<rparr>"
    unfolding last_friday last by (simp add: getDay_def addDays_def a_def)
  show "case getWeekdayDate c ''friday'' ''last'' of
            None \<Rightarrow> False
          | Some d \<Rightarrow> getDay d = 5
              \<and> (let k = dayNumber d - MakeDay ?y ?m 0
                 in 1 \<le> k \<and> k \<le> daysInMonth ?y ?m \<and> daysInMonth ?y ?m < k + 7)"
    unfolding res using a L dim by (simp add: getDay_def Let_def)
qed

text \<open>The theorem on Saturday 7 November 2026: the next Friday is 13 November, the last
  Friday is 27 November.\<close>

theorem C3_next_and_last_friday_witness:
  "validClock exampleClock
   \<and> getWeekdayDate exampleClock ''friday'' ''next'' = Some \<lparr>dayNumber = 20770, timeInDay = 36000000\<rparr>
   \<and> getWeekdayDate exampleClock ''friday'' ''last'' = Some \<lparr>dayNumber = 20784, timeInDay = 0\<rparr>
   \<and> (case getWeekdayDate exampleClock ''friday'' ''next'' of
            None \<Rightarrow> False
          | Some d \<Rightarrow> getDay d = 5
              \<and> 6 \<le> dayNumber d - dayNumber (nowDate exampleClock)
              \<and> dayNumber d - dayNumber (nowDate exampleClock) \<le> 12)
   \<and> (case getWeekdayDate exampleClock ''friday'' ''last'' of
            None \<Rightarrow> False
          | Some d \<Rightarrow> getDay d = 5
              \<and> (let k = dayNumber d - MakeDay (getFullYear exampleClock) (getMonth exampleClock) 0
                 in 1 \<le> k \<and> k \<le> daysInMonth (getFullYear exampleClock) (getMonth exampleClock)
                    \<and> daysInMonth (getFullYear exampleClock) (getMonth exampleClock) < k + 7))"
proof -
  have v: "validClock exampleClock" by code_simp
  have y: "100 \<le> getFullYear exampleClock" by code_simp
  have n: "getWeekdayDate exampleClock ''friday'' ''next'' = Some \<lparr>dayNumber = 20770, timeInDay = 36000000\<rparr>"
    by code_simp
  have l: "getWeekdayDate exampleClock ''friday'' ''last'' = Some \<lparr>dayNumber = 20784, timeInDay = 0\<rparr>"
    by code_simp
  note inst = C3_next_and_last_friday[OF v]
  from inst[THEN conjunct1] inst[THEN conjunct2, rule_format, OF y] v n l
  show ?thesis by blast
qed

text \<open>
  Claim C3 as first stated fails on Saturday 7 November 2026, day 20764: the next Friday is
  day 20770, six days ahead and not seven to thirteen; the last Friday is day 20784, the
  27th, which is not before today.
\<close>

theorem C3_counterexample:
  "dayNumber (nowDate \<lparr>getFullYear = 2026, getMonth = 10, getDate = 7, getTimeInDay = 36000000\<rparr>) = 20764
   \<and> getWeekdayDate \<lparr>getFullYear = 2026, getMonth = 10, getDate = 7, getTimeInDay = 36000000\<rparr>
        ''friday'' ''next'' = Some \<lparr>dayNumber = 20770, timeInDay = 36000000\<rparr>
   \<and> getWeekdayDate \<lparr>getFullYear = 2026, getMonth = 10, getDate = 7, getTimeInDay = 36000000\<rparr>
        ''friday'' ''last'' = Some \<lparr>dayNumber = 20784, timeInDay = 0\<rparr>"
  by code_simp

text \<open>Each loop applies the future-date rule to the resolved date, or finds none.\<close>

lemma ordinalLoop_resolved:
  "ordinalLoop c lowerInput monthName month ds =
     map_option (\<lambda>r. case r of None \<Rightarrow> None | Some d \<Rightarrow> futureOrNull c d)
       (resolvedOrdinal c lowerInput monthName month ds)"
  by (induction c lowerInput monthName month ds rule: ordinalLoop.induct)
     (simp_all add: datedOrNull_def split: option.splits)

lemma monthLoop_resolved:
  "monthLoop c lowerInput month names =
     map_option (\<lambda>r. case r of None \<Rightarrow> None | Some d \<Rightarrow> futureOrNull c d)
       (resolvedMonth c lowerInput month names)"
  by (induction c lowerInput month names rule: monthLoop.induct)
     (simp_all add: datedOrNull_def ordinalLoop_resolved split: option.splits)

lemma parseDateInput_resolved:
  assumes "firstExpression DATE_EXPRESSIONS (toLowerCase input) = None"
  shows "parseDateInput c parser input =
     (case resolvedDate c parser input of
        None \<Rightarrow> None
      | Some d \<Rightarrow> futureOrNull c d)"
  using assms
  by (simp add: parseDateInput_def resolvedDate_def Let_def datedOrNull_def monthLoop_resolved
      split: option.splits)

text \<open>
  Claim C7. For every input that contains no relative expression, so that it is resolved
  by the numeric branch, by a month name with a day number or a spelled ordinal, or by the
  generic parse: \<open>parseDateInput\<close> returns a date only if it is the resolved date and lies
  on or after today's midnight, and when the resolved date lies before today's midnight the
  result is none.
\<close>

theorem C7_past_dates_rejected:
  assumes "firstExpression DATE_EXPRESSIONS (toLowerCase input) = None"
  shows "(\<forall>d. parseDateInput c parser input = Some d
            \<longrightarrow> resolvedDate c parser input = Some d
                \<and> valueOf (atMidnight (nowDate c)) \<le> valueOf d)
     \<and> (\<forall>d. resolvedDate c parser input = Some d
              \<and> valueOf d < valueOf (atMidnight (nowDate c))
            \<longrightarrow> parseDateInput c parser input = None)"
  unfolding parseDateInput_resolved[OF assms]
  by (auto simp: futureOrNull_def isValidFutureDate_def split: option.splits if_splits)

text \<open>The theorem on 7 November 2026 at \<^verbatim>\<open>25/03\<close>, which is 25 March 2026 and rejected, and at
  \<^verbatim>\<open>2nd January 2027\<close>, which is returned.\<close>

theorem C7_past_dates_rejected_witness:
  "firstExpression DATE_EXPRESSIONS (toLowerCase ''25/03'') = None
   \<and> resolvedDate exampleClock (\<lambda>_. None) ''25/03'' = Some \<lparr>dayNumber = 20537, timeInDay = 0\<rparr>
   \<and> valueOf \<lparr>dayNumber = 20537, timeInDay = 0\<rparr> < valueOf (atMidnight (nowDate exampleClock))
   \<and> parseDateInput exampleClock (\<lambda>_. None) ''25/03'' = None
   \<and> firstExpression DATE_EXPRESSIONS (toLowerCase ''2nd January 2027'') = None
   \<and> parseDateInput exampleClock (\<lambda>_. None) ''2nd January 2027'' = Some \<lparr>dayNumber = 20820, timeInDay = 0\<rparr>
   \<and> valueOf (atMidnight (nowDate exampleClock)) \<le> valueOf \<lparr>dayNumber = 20820, timeInDay = 0\<rparr>"
proof -
  have r1: "firstExpression DATE_EXPRESSIONS (toLowerCase ''25/03'') = None" by code_simp
  have d1: "resolvedDate exampleClock (\<lambda>_. None) ''25/03'' = Some \<lparr>dayNumber = 20537, timeInDay = 0\<rparr>"
    by code_simp
  have v1: "valueOf \<lparr>dayNumber = 20537, timeInDay = 0\<rparr> < valueOf (atMidnight (nowDate exampleClock))"
    by code_simp
  have r2: "firstExpression DATE_EXPRESSIONS (toLowerCase ''2nd January 2027'') = None" by code_simp
  have p2: "parseDateInput exampleClock (\<lambda>_. None) ''2nd January 2027'' = Some \<lparr>dayNumber = 20820, timeInDay = 0\<rparr>"
    by code_simp
  have a: "parseDateInput exampleClock (\<lambda>_. None) ''25/03'' = None"
    using C7_past_dates_rejected[OF r1, where c = exampleClock and parser = "\<lambda>_. None", THEN conjunct2]
      d1 v1 by blast
  have b: "valueOf (atMidnight (nowDate exampleClock)) \<le> valueOf \<lparr>dayNumber = 20820, timeInDay = 0\<rparr>"
    using C7_past_dates_rejected[OF r2, where c = exampleClock and parser = "\<lambda>_. None", THEN conjunct1]
      p2 by blast
  from r1 d1 v1 a r2 p2 b show ?thesis by blast
qed

section \<open>The scheduling dialogue: properties\<close>

lemma cancelKeywords_lower: "keyword \<in> set cancelKeywords \<Longrightarrow> toLowerCase keyword = keyword"
proof -
  have "list_all (\<lambda>k. toLowerCase k = k) cancelKeywords" by code_simp
  then show "keyword \<in> set cancelKeywords \<Longrightarrow> toLowerCase keyword = keyword"
    by (simp add: list_all_iff)
qed

lemma hasCancelKeyword_intro:
  assumes "keyword \<in> set cancelKeywords"
    and "includesStr userMessage keyword \<or> includesStr (toLowerCase userMessage) keyword"
  shows "hasCancelKeyword userMessage"
proof -
  from assms have "includesStr (toLowerCase userMessage) keyword"
    using includesStr_toLowerCase cancelKeywords_lower by blast
  with assms(1) show ?thesis by (auto simp: hasCancelKeyword_def list_ex_iff)
qed

lemma handleMeetingRequest_new:
  "states userId = None \<Longrightarrow>
   handleMeetingRequest e states userId userMessage =
     (states(userId \<mapsto> initialState e userMessage), [R_understood (initialState e userMessage)])"
  by (simp add: handleMeetingRequest_def tryBody_def Let_def)

lemma handleMeetingRequest_cancel:
  "states userId = Some state \<Longrightarrow> hasCancelKeyword userMessage \<Longrightarrow>
   handleMeetingRequest e states userId userMessage = (states(userId := None), [R_cancelled])"
  by (simp add: handleMeetingRequest_def tryBody_def)

lemma maybe_facts:
  "\<not> hasCancelKeyword ''maybe'' \<and> \<not> includesStr (toLowerCase ''maybe'') ''yes''
   \<and> toLowerCase ''maybe'' \<notin> set cancelKeywords"
  by code_simp

lemma yes_facts:
  "\<not> hasCancelKeyword ''yes'' \<and> includesStr (toLowerCase ''yes'') ''yes''"
  by code_simp

text \<open>
  Claim C1 does not hold of the code. At the step \<open>confirm\<close> the handler deletes the
  user's dialogue, leaves the \<^verbatim>\<open>switch\<close>, and then stores the same state again: after a
  reply that is neither a yes nor a cancel keyword (\<^verbatim>\<open>maybe\<close>), and after a meeting was
  created (\<^verbatim>\<open>yes\<close>), the user still has the dialogue, at the step \<open>confirm\<close>.
\<close>

theorem C1_dialogue_kept_after_confirm:
  "handleMeetingRequest e (states(userId \<mapsto> \<lparr>step = S_confirm, details = d\<rparr>)) userId ''maybe''
     = (states(userId \<mapsto> \<lparr>step = S_confirm, details = d\<rparr>), [R_start_over])
   \<and> handleMeetingRequest exampleEnv (states(userId \<mapsto> \<lparr>step = S_confirm, details = exampleDetails\<rparr>)) userId ''yes''
     = (states(userId \<mapsto> \<lparr>step = S_confirm, details = exampleDetails\<rparr>), [R_scheduled])"
proof -
  have a: "handleMeetingRequest e (states(userId \<mapsto> \<lparr>step = S_confirm, details = d\<rparr>)) userId ''maybe''
     = (states(userId \<mapsto> \<lparr>step = S_confirm, details = d\<rparr>), [R_start_over])"
    using maybe_facts
    by (simp add: handleMeetingRequest_def tryBody_def stepSwitch_def confirmStep_def)
  have b: "handleMeetingRequest exampleEnv (states(userId \<mapsto> \<lparr>step = S_confirm, details = exampleDetails\<rparr>)) userId ''yes''
     = (states(userId \<mapsto> \<lparr>step = S_confirm, details = exampleDetails\<rparr>), [R_scheduled])"
    using yes_facts
    by (simp add: handleMeetingRequest_def tryBody_def stepSwitch_def confirmStep_def
        exampleEnv_def exampleDetails_def Let_def)
  from a b show ?thesis by blast
qed

text \<open>The first message of claim C2, pattern by pattern.\<close>

lemma request_time:
  "map_option matched (strMatch False timePattern ''schedule a meeting with john@x.com tomorrow at 3pm for 30 minutes'') = Some ''3pm''"
  by code_simp

lemma request_date:
  "map_option (\<lambda>m. (matched m, capture m 1)) (strMatch True datePattern ''schedule a meeting with john@x.com tomorrow at 3pm for 30 minutes'')
     = Some (''tomorrow '', None)"
  by code_simp

lemma request_duration:
  "map_option (\<lambda>m. (matched m, capture m 1)) (strMatch True durationPattern ''schedule a meeting with john@x.com tomorrow at 3pm for 30 minutes'')
     = Some (''30 min'', Some ''30'')"
  by code_simp

lemma request_emails:
  "matchAll False emailPattern ''schedule a meeting with john@x.com tomorrow at 3pm for 30 minutes'' = [''john@x.com'']"
  by code_simp

lemma request_description:
  "strMatch True descPattern ''schedule a meeting with john@x.com tomorrow at 3pm for 30 minutes'' = None"
  by code_simp

lemma request_words:
  "\<not> includesStr (toLowerCase ''schedule a meeting with john@x.com tomorrow at 3pm for 30 minutes'') ''today''
   \<and> \<not> includesStr (toLowerCase ''schedule a meeting with john@x.com tomorrow at 3pm for 30 minutes'') ''no description''
   \<and> \<not> includesStr (toLowerCase ''30 min'') ''hour''
   \<and> parseInt ''30'' = Some 30
   \<and> extractTime ''3pm'' = Some ''15:00''"
  by code_simp

lemma request_info:
  "extractedInfo (analyzeMeetingRequest ''schedule a meeting with john@x.com tomorrow at 3pm for 30 minutes'') =
     \<lparr>xTime = Some ''15:00'',
      xName = (case strMatch True namePattern ''schedule a meeting with john@x.com tomorrow at 3pm for 30 minutes'' of None \<Rightarrow> None | Some m \<Rightarrow> capture m 1),
      xDate = None, xDuration = Some 30, xEmails = [''john@x.com''], xDescription = None\<rparr>"
proof -
  obtain tm where tm: "strMatch False timePattern ''schedule a meeting with john@x.com tomorrow at 3pm for 30 minutes'' = Some tm" "matched tm = ''3pm''"
    using request_time by (cases "strMatch False timePattern ''schedule a meeting with john@x.com tomorrow at 3pm for 30 minutes''") auto
  obtain dm where dm: "strMatch True datePattern ''schedule a meeting with john@x.com tomorrow at 3pm for 30 minutes'' = Some dm" "capture dm 1 = None"
    using request_date by (cases "strMatch True datePattern ''schedule a meeting with john@x.com tomorrow at 3pm for 30 minutes''") auto
  obtain um where um: "strMatch True durationPattern ''schedule a meeting with john@x.com tomorrow at 3pm for 30 minutes'' = Some um"
      "matched um = ''30 min''" "capture um 1 = Some ''30''"
    using request_duration by (cases "strMatch True durationPattern ''schedule a meeting with john@x.com tomorrow at 3pm for 30 minutes''") auto
  show ?thesis
    using request_words
    by (simp add: analyzeMeetingRequest_def Let_def tm dm um request_emails request_description
        truthyStr_def del: One_nat_def)
qed

text \<open>
  Claim C2 does not hold of the code. For the message of the claim, from a user without a
  dialogue and whatever the clock, the time, the duration and the attendee are extracted,
  but the date is not: the date pattern matches \<^verbatim>\<open>tomorrow\<close> as its leading word, its
  capture group, which only takes a word after the leading one, stays empty, and the
  dialogue opens at the step \<open>date\<close> with an empty date slot.
\<close>

theorem C2_full_request_opens_at_date:
  "handleMeetingRequest e Map.empty userId ''schedule a meeting with john@x.com tomorrow at 3pm for 30 minutes'' =
     ([userId \<mapsto>
        \<lparr>step = S_date,
         details = \<lparr>date = None, time = Some ''15:00'', duration = Some 30,
                    attendees = [''john@x.com''], description = None,
                    meetingId = None, meetings = None\<rparr>\<rparr>],
      [R_understood
        \<lparr>step = S_date,
         details = \<lparr>date = None, time = Some ''15:00'', duration = Some 30,
                    attendees = [''john@x.com''], description = None,
                    meetingId = None, meetings = None\<rparr>\<rparr>])"
proof -
  have "initialState e ''schedule a meeting with john@x.com tomorrow at 3pm for 30 minutes'' =
        \<lparr>step = S_date,
         details = \<lparr>date = None, time = Some ''15:00'', duration = Some 30,
                    attendees = [''john@x.com''], description = None,
                    meetingId = None, meetings = None\<rparr>\<rparr>"
    using request_words
    by (simp add: initialState_def Let_def request_info truthyStr_def truthyNum_def firstStep_def)
  then show ?thesis
    by (simp add: handleMeetingRequest_def tryBody_def Let_def)
qed

text \<open>
  Claim C6. Whatever the step of the open dialogue, a message that contains a cancel
  keyword deletes the user's dialogue and is answered by the acknowledgment, before any
  logic of the step; the next message of that user that is a meeting request opens a
  dialogue built from that message and the environment alone, in a store that is the one
  the user never had a dialogue in.
\<close>

theorem C6_cancel_keyword_clears_dialogue:
  assumes "states userId = Some state"
    and "keyword \<in> set cancelKeywords"
    and "includesStr userMessage keyword \<or> includesStr (toLowerCase userMessage) keyword"
    and "messageText c = Some text" and "fromId c = Some userId" and "userId \<noteq> 0"
    and "isMeetingRequest (trim text)"
  shows "handleMeetingRequest e states userId userMessage = (states(userId := None), [R_cancelled])
    \<and> handleMessage e' (fst (handleMeetingRequest e states userId userMessage)) c =
        (To_handleMeetingRequest,
         (states(userId := None))(userId \<mapsto> initialState e' (trim text)),
         [R_understood (initialState e' (trim text))])"
proof -
  have kw: "hasCancelKeyword userMessage"
    using assms(2,3) by (rule hasCancelKeyword_intro)
  have cleared: "handleMeetingRequest e states userId userMessage = (states(userId := None), [R_cancelled])"
    using assms(1) kw by (rule handleMeetingRequest_cancel)
  have fresh: "handleMeetingRequest e' (states(userId := None)) userId (trim text) =
      ((states(userId := None))(userId \<mapsto> initialState e' (trim text)),
       [R_understood (initialState e' (trim text))])"
    by (rule handleMeetingRequest_new) simp
  have "handleMessage e' (states(userId := None)) c =
      (To_handleMeetingRequest, handleMeetingRequest e' (states(userId := None)) userId (trim text))"
    using assms(4-7) by (simp add: handleMessage_def Let_def)
  with cleared fresh show ?thesis by simp
qed

text \<open>The theorem for a user at the step \<open>duration\<close> who writes \<^verbatim>\<open>please stop\<close> and then
  \<^verbatim>\<open>book a call\<close>: the new dialogue starts at the step \<open>date\<close> with every slot empty.\<close>

theorem C6_cancel_keyword_clears_dialogue_witness:
  "''stop'' \<in> set cancelKeywords
   \<and> includesStr ''please stop'' ''stop''
   \<and> isMeetingRequest (trim ''book a call'')
   \<and> handleMeetingRequest exampleEnv [7 \<mapsto> \<lparr>step = S_duration, details = exampleDetails\<rparr>] 7 ''please stop''
       = (Map.empty, [R_cancelled])
   \<and> handleMessage exampleEnv
        (fst (handleMeetingRequest exampleEnv [7 \<mapsto> \<lparr>step = S_duration, details = exampleDetails\<rparr>] 7 ''please stop''))
        \<lparr>messageText = Some ''book a call'', fromId = Some 7\<rparr>
       = (To_handleMeetingRequest,
          [7 \<mapsto> initialState exampleEnv (trim ''book a call'')],
          [R_understood (initialState exampleEnv (trim ''book a call''))])
   \<and> initialState exampleEnv (trim ''book a call'')
       = \<lparr>step = S_date,
          details = \<lparr>date = None, time = None, duration = None, attendees = [],
                     description = None, meetingId = None, meetings = None\<rparr>\<rparr>"
proof -
  let ?states = "[7 \<mapsto> \<lparr>step = S_duration, details = exampleDetails\<rparr>] :: store"
  let ?c = "\<lparr>messageText = Some ''book a call'', fromId = Some (7::int)\<rparr>"
  have h1: "?states 7 = Some \<lparr>step = S_duration, details = exampleDetails\<rparr>" by simp
  have h2: "''stop'' \<in> set cancelKeywords" by code_simp
  have h3': "includesStr ''please stop'' ''stop''" by code_simp
  then have h3: "includesStr ''please stop'' ''stop'' \<or> includesStr (toLowerCase ''please stop'') ''stop''" ..
  have h4: "messageText ?c = Some ''book a call''" by simp
  have h5: "fromId ?c = Some 7" by simp
  have h6: "(7::int) \<noteq> 0" by simp
  have h7: "isMeetingRequest (trim ''book a call'')" by code_simp
  have fresh: "initialState exampleEnv (trim ''book a call'')
       = \<lparr>step = S_date,
          details = \<lparr>date = None, time = None, duration = None, attendees = [],
                     description = None, meetingId = None, meetings = None\<rparr>\<rparr>"
    by code_simp
  note inst = C6_cancel_keyword_clears_dialogue[where e = exampleEnv and e' = exampleEnv and states = "?states" and userId = 7, OF h1 h2 h3 h4 h5 h6 h7]
  have a: "handleMeetingRequest exampleEnv ?states 7 ''please stop'' = (Map.empty, [R_cancelled])"
    using inst[THEN conjunct1] by simp
  have b: "handleMessage exampleEnv (fst (handleMeetingRequest exampleEnv ?states 7 ''please stop'')) ?c
       = (To_handleMeetingRequest,
          [7 \<mapsto> initialState exampleEnv (trim ''book a call'')],
          [R_understood (initialState exampleEnv (trim ''book a call''))])"
    using inst[THEN conjunct2] by simp
  from h2 h3' h7 a b fresh show ?thesis by blast
qed

text \<open>
  Claim C9, as amended. At the step \<open>duration\<close>, for every message without a cancel
  keyword: when \<open>parseInt\<close> gives \<^verbatim>\<open>NaN\<close>, a number not above 0 or a number above 480, the
  reply is the re-prompt and the store is unchanged; when it gives a number from 1 to 480,
  that number becomes the duration, the other slots stay, and the step becomes
  \<open>description\<close>.
\<close>

theorem C9_duration_step:
  assumes "states userId = Some state" and "step state = S_duration"
    and "\<not> hasCancelKeyword userMessage"
  shows "(parseInt userMessage = None \<or> (\<exists>n. parseInt userMessage = Some n \<and> (n \<le> 0 \<or> 480 < n))
           \<longrightarrow> handleMeetingRequest e states userId userMessage = (states, [R_duration_help]))
     \<and> (\<forall>n. parseInt userMessage = Some n \<and> 1 \<le> n \<and> n \<le> 480
           \<longrightarrow> handleMeetingRequest e states userId userMessage =
                 (states(userId \<mapsto> state\<lparr>details := (details state)\<lparr>duration := Some n\<rparr>,
                                             step := S_description\<rparr>),
                  [R_ask_description]))"
  using assms by (auto simp add: handleMeetingRequest_def tryBody_def stepSwitch_def)

text \<open>The theorem at the messages 0, 481, \<^verbatim>\<open>an hour\<close>, 1 and 480.\<close>

theorem C9_duration_step_witness:
  "handleMeetingRequest exampleEnv [7 \<mapsto> \<lparr>step = S_duration, details = exampleDetails\<rparr>] 7 ''0''
     = ([7 \<mapsto> \<lparr>step = S_duration, details = exampleDetails\<rparr>], [R_duration_help])
   \<and> handleMeetingRequest exampleEnv [7 \<mapsto> \<lparr>step = S_duration, details = exampleDetails\<rparr>] 7 ''481''
     = ([7 \<mapsto> \<lparr>step = S_duration, details = exampleDetails\<rparr>], [R_duration_help])
   \<and> handleMeetingRequest exampleEnv [7 \<mapsto> \<lparr>step = S_duration, details = exampleDetails\<rparr>] 7 ''an hour''
     = ([7 \<mapsto> \<lparr>step = S_duration, details = exampleDetails\<rparr>], [R_duration_help])
   \<and> handleMeetingRequest exampleEnv [7 \<mapsto> \<lparr>step = S_duration, details = exampleDetails\<rparr>] 7 ''1''
     = ([7 \<mapsto> \<lparr>step = S_description, details = exampleDetails\<lparr>duration := Some 1\<rparr>\<rparr>], [R_ask_description])
   \<and> handleMeetingRequest exampleEnv [7 \<mapsto> \<lparr>step = S_duration, details = exampleDetails\<rparr>] 7 ''480''
     = ([7 \<mapsto> \<lparr>step = S_description, details = exampleDetails\<lparr>duration := Some 480\<rparr>\<rparr>], [R_ask_description])"
proof -
  let ?state = "\<lparr>step = S_duration, details = exampleDetails\<rparr>"
  let ?states = "[7 \<mapsto> ?state] :: store"
  have h1: "?states 7 = Some ?state" by simp
  have h2: "step ?state = S_duration" by simp
  have k0: "\<not> hasCancelKeyword ''0''" by code_simp
  have k481: "\<not> hasCancelKeyword ''481''" by code_simp
  have kh: "\<not> hasCancelKeyword ''an hour''" by code_simp
  have k1: "\<not> hasCancelKeyword ''1''" by code_simp
  have k480: "\<not> hasCancelKeyword ''480''" by code_simp
  have p0: "parseInt ''0'' = Some 0" by code_simp
  have p481: "parseInt ''481'' = Some 481" by code_simp
  have ph: "parseInt ''an hour'' = None" by code_simp
  have p1: "parseInt ''1'' = Some 1" by code_simp
  have p480: "parseInt ''480'' = Some 480" by code_simp
  have a: "handleMeetingRequest exampleEnv ?states 7 ''0'' = (?states, [R_duration_help])"
    using C9_duration_step[where e = exampleEnv and states = "?states" and userId = 7 and state = "?state", OF h1 h2 k0] p0 by simp
  have b: "handleMeetingRequest exampleEnv ?states 7 ''481'' = (?states, [R_duration_help])"
    using C9_duration_step[where e = exampleEnv and states = "?states" and userId = 7 and state = "?state", OF h1 h2 k481] p481 by simp
  have c: "handleMeetingRequest exampleEnv ?states 7 ''an hour'' = (?states, [R_duration_help])"
    using C9_duration_step[where e = exampleEnv and states = "?states" and userId = 7 and state = "?state", OF h1 h2 kh] ph by simp
  have d: "handleMeetingRequest exampleEnv ?states 7 ''1''
      = ([7 \<mapsto> \<lparr>step = S_description, details = exampleDetails\<lparr>duration := Some 1\<rparr>\<rparr>], [R_ask_description])"
    using C9_duration_step[where e = exampleEnv and states = "?states" and userId = 7 and state = "?state", OF h1 h2 k1] p1 by simp
  have e: "handleMeetingRequest exampleEnv ?states 7 ''480''
      = ([7 \<mapsto> \<lparr>step = S_description, details = exampleDetails\<lparr>duration := Some 480\<rparr>\<rparr>], [R_ask_description])"
    using C9_duration_step[where e = exampleEnv and states = "?states" and userId = 7 and state = "?state", OF h1 h2 k480] p480 by simp
  from a b c d e show ?thesis by blast
qed

text \<open>
  Claim C9 as first stated fails for a message with a cancel keyword: \<^verbatim>\<open>cancel\<close> parses to
  \<^verbatim>\<open>NaN\<close>, and at the step \<open>duration\<close> it is answered by the acknowledgment of the
  cancellation and the dialogue is deleted.
\<close>

theorem C9_counterexample:
  "parseInt ''cancel'' = None
   \<and> handleMeetingRequest exampleEnv [7 \<mapsto> \<lparr>step = S_duration, details = exampleDetails\<rparr>] 7 ''cancel''
       = (Map.empty, [R_cancelled])"
proof -
  have p: "parseInt ''cancel'' = None" by code_simp
  have k: "hasCancelKeyword ''cancel''" by code_simp
  have "handleMeetingRequest exampleEnv [7 \<mapsto> \<lparr>step = S_duration, details = exampleDetails\<rparr>] 7 ''cancel''
       = (Map.empty, [R_cancelled])"
    using k by (simp add: handleMeetingRequest_def tryBody_def)
  with p show ?thesis by blast
qed

section \<open>The router: properties\<close>

text \<open>
  Claim C8. For every text message of a sender, when the trimmed message satisfies
  \<open>isMeetingRequest\<close> or the sender has an open dialogue, \<open>handleMessage\<close> gives the
  message to \<open>handleMeetingRequest\<close> and returns; the patterns for cancelling, listing and
  updating are not consulted. So a message with both meeting and list keywords is
  scheduled, not listed.
\<close>

theorem C8_scheduling_route_first:
  assumes "messageText c = Some text" and "fromId c = Some userId" and "userId \<noteq> 0"
    and "isMeetingRequest (trim text) \<or> states userId \<noteq> None"
  shows "handleMessage e states c =
    (To_handleMeetingRequest, handleMeetingRequest e states userId (trim text))"
  using assms by (auto simp add: handleMessage_def Let_def)

text \<open>The theorem at \<^verbatim>\<open>list my meeting schedule\<close>, which also matches the list pattern.\<close>

theorem C8_scheduling_route_first_witness:
  "isMeetingRequest (trim ''list my meeting schedule'')
   \<and> rtest False listPhrase (toLowerCase (trim ''list my meeting schedule''))
   \<and> handleMessage exampleEnv Map.empty \<lparr>messageText = Some ''list my meeting schedule'', fromId = Some 7\<rparr>
       = (To_handleMeetingRequest,
          handleMeetingRequest exampleEnv Map.empty 7 (trim ''list my meeting schedule''))"
proof -
  let ?c = "\<lparr>messageText = Some ''list my meeting schedule'', fromId = Some (7::int)\<rparr>"
  have h1: "messageText ?c = Some ''list my meeting schedule''" by simp
  have h2: "fromId ?c = Some 7" by simp
  have h3: "(7::int) \<noteq> 0" by simp
  have m: "isMeetingRequest (trim ''list my meeting schedule'')" by code_simp
  then have h4: "isMeetingRequest (trim ''list my meeting schedule'') \<or> (Map.empty :: store) 7 \<noteq> None" ..
  have l: "rtest False listPhrase (toLowerCase (trim ''list my meeting schedule''))" by code_simp
  have "handleMessage exampleEnv Map.empty ?c
       = (To_handleMeetingRequest,
          handleMeetingRequest exampleEnv Map.empty 7 (trim ''list my meeting schedule''))"
    by (rule C8_scheduling_route_first[where states = Map.empty and userId = 7, OF h1 h2 h3 h4])
  with m l show ?thesis by blast
qed

lemma cancel_words_lower: "list_all isLower ''cancel'' \<and> list_all isLower ''delete''"
  by code_simp

text \<open>Every message that matches the cancel phrase is a meeting request.\<close>

lemma cancelPhrase_isMeetingRequest:
  assumes "rtest False cancelPhrase (toLowerCase userMessage)"
  shows "isMeetingRequest userMessage"
proof -
  let ?W = "\<lambda>w. Seq WordB (Seq (Lit w) WordB)"
  from assms obtain k where k: "k \<le> length userMessage"
    and m: "ms False cancelPhrase
              (rev (take k (toLowerCase userMessage)), drop k (toLowerCase userMessage), []) \<noteq> []"
    by (auto simp: rtest_iff toLowerCase_def)
  have st: "rev (take k (toLowerCase userMessage)) = map lowerChar (rev (take k userMessage))"
    "drop k (toLowerCase userMessage) = map lowerChar (drop k userMessage)"
    by (simp_all add: toLowerCase_def take_map drop_map rev_map)
  from m have "ms False (?W ''cancel'') (map lowerChar (rev (take k userMessage)), map lowerChar (drop k userMessage), []) \<noteq> []
     \<or> ms False (?W ''delete'') (map lowerChar (rev (take k userMessage)), map lowerChar (drop k userMessage), []) \<noteq> []"
    unfolding st cancelPhrase_def alts.simps by (rule bounded_word_of_phrase)
  then have "ms True (?W ''cancel'') (rev (take k userMessage), drop k userMessage, []) \<noteq> []
     \<or> ms True (?W ''delete'') (rev (take k userMessage), drop k userMessage, []) \<noteq> []"
    using cancel_words_lower word_lower by blast
  then have "ms True (wordOf [Lit ''cancel'', Lit ''delete'']) (rev (take k userMessage), drop k userMessage, []) \<noteq> []"
    by (rule wordOf_of_bounded_word)
  with k have "rtest True (wordOf [Lit ''cancel'', Lit ''delete'']) userMessage"
    unfolding rtest_iff by blast
  then show ?thesis
    by (simp add: isMeetingRequest_def meetingKeywords_def)
qed

text \<open>The steps that \<open>handleMeetingRequest\<close> can store.\<close>

lemma firstStep_not_cancel:
  "firstStep d \<noteq> S_confirm_cancel \<and> firstStep d \<noteq> S_select_cancel"
  by (simp add: firstStep_def)

lemma initialState_not_cancel:
  "step (initialState e userMessage) \<noteq> S_confirm_cancel
   \<and> step (initialState e userMessage) \<noteq> S_select_cancel"
  using firstStep_not_cancel by (simp add: initialState_def Let_def)

lemma confirmStep_store:
  assumes "step state = S_confirm"
  shows "case confirmStep e states userId userMessage state of
           Returned states' replies \<Rightarrow> states' = states
         | Broke states' state' replies \<Rightarrow>
             (states' = states \<or> states' = states(userId := None)) \<and> step state' = S_confirm
         | Thrown states' replies \<Rightarrow> states' = states"
  using assms by (simp add: confirmStep_def Let_def split: option.splits list.splits)

lemma stepSwitch_store:
  assumes "step state \<noteq> S_confirm_cancel" and "step state \<noteq> S_select_cancel"
  shows "case stepSwitch e states userId userMessage state of
           Returned states' replies \<Rightarrow> states' = states
         | Broke states' state' replies \<Rightarrow>
             (states' = states \<or> states' = states(userId := None))
             \<and> step state' \<noteq> S_confirm_cancel \<and> step state' \<noteq> S_select_cancel
         | Thrown states' replies \<Rightarrow> states' = states"
proof (cases "step state")
  case S_confirm
  then show ?thesis
    using confirmStep_store[OF S_confirm, where e = e and states = states and userId = userId and userMessage = userMessage]
    by (simp add: stepSwitch_def split: outcome.splits)
qed (use assms in \<open>simp_all add: stepSwitch_def Let_def split: option.splits\<close>)

lemma handleMeetingRequest_not_cancel:
  assumes inv: "\<forall>u s. states u = Some s \<longrightarrow> step s \<noteq> S_confirm_cancel \<and> step s \<noteq> S_select_cancel"
    and res: "fst (handleMeetingRequest e states userId userMessage) u = Some s"
  shows "step s \<noteq> S_confirm_cancel \<and> step s \<noteq> S_select_cancel"
proof (cases "states userId")
  case None
  with res have "(states(userId \<mapsto> initialState e userMessage)) u = Some s"
    by (simp add: handleMeetingRequest_def tryBody_def Let_def)
  then show ?thesis using inv initialState_not_cancel[of e userMessage]
    by (cases "u = userId") auto
next
  case (Some state)
  with inv have ok: "step state \<noteq> S_confirm_cancel" "step state \<noteq> S_select_cancel" by blast+
  show ?thesis
  proof (cases "hasCancelKeyword userMessage")
    case True
    with Some res have "(states(userId := None)) u = Some s"
      by (simp add: handleMeetingRequest_def tryBody_def)
    then show ?thesis using inv by (cases "u = userId") auto
  next
    case False
    with Some have body: "tryBody e states userId userMessage = stepSwitch e states userId userMessage state"
      by (simp add: tryBody_def)
    show ?thesis
      using stepSwitch_store[OF ok, where e = e and states = states and userId = userId and userMessage = userMessage] res inv
      unfolding handleMeetingRequest_def body
      by (cases "stepSwitch e states userId userMessage state"; cases "u = userId") auto
  qed
qed

lemma handleMessage_cases:
  "(fst (handleMessage e states c) \<noteq> To_handleMeetingRequest
      \<and> fst (handleMessage e states c) \<noteq> To_handleCancelRequest
      \<and> fst (snd (handleMessage e states c)) = states)
   \<or> (\<exists>userId msg. handleMessage e states c =
         (To_handleMeetingRequest, handleMeetingRequest e states userId msg))"
proof (cases "messageText c")
  case None
  then show ?thesis by (simp add: handleMessage_def)
next
  case (Some t)
  note t = this
  show ?thesis
  proof (cases "fromId c")
    case None
    with t show ?thesis by (simp add: handleMessage_def)
  next
    case (Some userId)
    show ?thesis
    proof (cases "userId = 0")
      case True
      with t Some show ?thesis by (simp add: handleMessage_def)
    next
      case False
      show ?thesis
      proof (cases "isMeetingRequest (trim t) \<or> states userId \<noteq> None")
        case True
        with t Some False have "handleMessage e states c =
            (To_handleMeetingRequest, handleMeetingRequest e states userId (trim t))"
          by (auto simp add: handleMessage_def Let_def)
        then show ?thesis by blast
      next
        case no: False
        then have "\<not> rtest False cancelPhrase (toLowerCase (trim t))"
          using cancelPhrase_isMeetingRequest by blast
        with t Some False no show ?thesis
          by (simp add: handleMessage_def Let_def)
      qed
    qed
  qed
qed

text \<open>
  Claim C10. Every message whose lower-cased text matches the cancel phrase satisfies
  \<open>isMeetingRequest\<close>; so \<open>handleMessage\<close> never gives a message to
  \<open>handleCancelRequest\<close>, and when no dialogue of the store is at the steps
  \<open>confirm_cancel\<close> and \<open>select_cancel\<close>, none is after the message.
\<close>

theorem C10_cancel_flow_unreachable:
  "(rtest False cancelPhrase (toLowerCase userMessage) \<longrightarrow> isMeetingRequest userMessage)
   \<and> fst (handleMessage e states c) \<noteq> To_handleCancelRequest
   \<and> ((\<forall>u s. states u = Some s \<longrightarrow> step s \<noteq> S_confirm_cancel \<and> step s \<noteq> S_select_cancel)
       \<longrightarrow> (\<forall>u s. fst (snd (handleMessage e states c)) u = Some s
                 \<longrightarrow> step s \<noteq> S_confirm_cancel \<and> step s \<noteq> S_select_cancel))"
proof -
  have implied: "rtest False cancelPhrase (toLowerCase userMessage) \<longrightarrow> isMeetingRequest userMessage"
    using cancelPhrase_isMeetingRequest by blast
  have route: "fst (handleMessage e states c) \<noteq> To_handleCancelRequest"
    using handleMessage_cases[of e states c] by auto
  have steps: "step s \<noteq> S_confirm_cancel \<and> step s \<noteq> S_select_cancel"
    if inv: "\<forall>u s. states u = Some s \<longrightarrow> step s \<noteq> S_confirm_cancel \<and> step s \<noteq> S_select_cancel"
      and res: "fst (snd (handleMessage e states c)) u = Some s" for u s
  proof -
    from handleMessage_cases[of e states c]
    consider (same) "fst (snd (handleMessage e states c)) = states"
      | (meeting) userId msg where
          "handleMessage e states c = (To_handleMeetingRequest, handleMeetingRequest e states userId msg)"
      by blast
    then show ?thesis
    proof cases
      case same
      with inv res show ?thesis by simp
    next
      case meeting
      with res have "fst (handleMeetingRequest e states userId msg) u = Some s" by simp
      with inv show ?thesis by (rule handleMeetingRequest_not_cancel)
    qed
  qed
  from implied route steps show ?thesis by blast
qed

text \<open>The theorem at \<^verbatim>\<open>Cancel my meeting\<close>, which goes to the scheduling dialogue.\<close>

theorem C10_cancel_flow_unreachable_witness:
  "rtest False cancelPhrase (toLowerCase ''Cancel my meeting'')
   \<and> isMeetingRequest ''Cancel my meeting''
   \<and> fst (handleMessage exampleEnv Map.empty \<lparr>messageText = Some ''Cancel my meeting'', fromId = Some 7\<rparr>)
       = To_handleMeetingRequest"
proof -
  have p: "rtest False cancelPhrase (toLowerCase ''Cancel my meeting'')" by code_simp
  have t: "trim ''Cancel my meeting'' = ''Cancel my meeting''" by code_simp
  note inst = C10_cancel_flow_unreachable[where userMessage = "''Cancel my meeting''"
      and e = exampleEnv and states = Map.empty
      and c = "\<lparr>messageText = Some ''Cancel my meeting'', fromId = Some 7\<rparr>"]
  from inst[THEN conjunct1] p have m: "isMeetingRequest ''Cancel my meeting''" by blast
  have "fst (handleMessage exampleEnv Map.empty \<lparr>messageText = Some ''Cancel my meeting'', fromId = Some 7\<rparr>)
       = To_handleMeetingRequest"
    using m t by (simp add: handleMessage_def Let_def)
  with p m show ?thesis by blast
qed

end
